theory Spec2Isabelle
  imports Complex_Main
begin

section \<open>The dispersion calculator: a shallow embedding of dispersion_calc.py\<close>

text \<open>
  The class \<^verbatim>\<open>DispersionCalculator\<close> of \<^verbatim>\<open>src/dispersion_calc.py\<close> is modelled by
  a record of its attributes and one function per method, the object being passed in and
  returned.

  Conventions of the model.
  \<^item> The source is Python 2 code on numpy (old-style \<^verbatim>\<open>class ...(object)\<close>,
    \<^verbatim>\<open>cElementTree\<close>, \<^verbatim>\<open>np.int\<close>, an integer \<^verbatim>\<open>shape[0] / 2\<close> handed to
    \<^verbatim>\<open>np.roll\<close>): \<^verbatim>\<open>/\<close> between integers is floor division.
  \<^item> A finite float is a real number and a finite complex float a complex number:
    rounding, overflow and signed zeros are not modelled. NaN is modelled where the
    source produces or tests it: a value that may be NaN has type \<open>'a option\<close> and
    \<open>None\<close> is NaN. The stored fields hold finite samples only.
  \<^item> A raised exception is \<open>Inl\<close> of the exception's class; the attributes a method
    had already assigned when it raised are not kept. \<open>NonFinite\<close> is not an exception
    of the source: it marks the runs in which numpy goes on with infinite or NaN samples
    that the stored fields of the model cannot hold.
  \<^item> The attributes \<^verbatim>\<open>E_t_out\<close> and \<^verbatim>\<open>E_w_out\<close> are tested against Python's
    \<^verbatim>\<open>None\<close> by the source, so they are optional arrays: \<open>None\<close> is Python's
    \<^verbatim>\<open>None\<close>, \<open>Some []\<close> the empty array \<^verbatim>\<open>np.array([])\<close>.
  \<^item> Library routines are modelled by what their documentation states
    (\<^verbatim>\<open>np.linspace\<close>, \<^verbatim>\<open>np.fft.fftfreq\<close>, \<^verbatim>\<open>np.fft.fft\<close>, \<^verbatim>\<open>np.fft.ifft\<close>,
    \<^verbatim>\<open>np.fft.fftshift\<close>, \<^verbatim>\<open>np.roll\<close>, \<^verbatim>\<open>np.argmax\<close>, \<^verbatim>\<open>np.diff\<close>,
    \<^verbatim>\<open>np.where\<close>, \<^verbatim>\<open>np.polyval\<close>). The least-squares fit \<^verbatim>\<open>np.polyfit\<close> is a
    parameter of the functions that call it, and an interpolator built by
    \<^verbatim>\<open>scipy.interpolate.interp1d(..., bounds_error=False, fill_value=np.nan)\<close> is a
    function from an angular frequency to an index that may be NaN.
  \<^item> The catalogue is the attribute \<^verbatim>\<open>materials\<close>, a map from names to interpolators.
    The methods that fill it (\<^verbatim>\<open>generate_materials_dict\<close>, \<^verbatim>\<open>add_material\<close>,
    \<^verbatim>\<open>read_material\<close>) evaluate Sellmeier formulas and read files; they are not
    modelled, and every statement below holds for every catalogue.
\<close>

subsection \<open>Exceptions\<close>

datatype error =
  ZeroDivisionError | ValueError | TypeError | AttributeError | IndexError | NonFinite

definition bindE :: "error + 'a \<Rightarrow> ('a \<Rightarrow> error + 'b) \<Rightarrow> error + 'b" where
  "bindE m f = (case m of Inl e \<Rightarrow> Inl e | Inr x \<Rightarrow> f x)"

subsection \<open>numpy routines\<close>

text \<open>\<^verbatim>\<open>np.linspace(a, b, n)\<close>, end point included: the step is \<open>(b - a) / (n - 1)\<close>;
  one sample is \<open>a\<close> alone.\<close>

definition linspace :: "real \<Rightarrow> real \<Rightarrow> nat \<Rightarrow> real list" where
  "linspace a b n =
     (if n = 1 then [a]
      else map (\<lambda>i. a + real i * ((b - a) / real (n - 1))) [0..<n])"

text \<open>\<^verbatim>\<open>np.fft.fftfreq(n, d)\<close>: \<^verbatim>\<open>val = 1.0 / (n * d)\<close> is a division of Python floats,
  then \<open>[0, 1, ..., (n-1)//2, -(n//2), ..., -1] * val\<close>.\<close>

definition fftfreq :: "nat \<Rightarrow> real \<Rightarrow> error + real list" where
  "fftfreq n d =
     (if real n * d = 0 then Inl ZeroDivisionError
      else Inr (map (\<lambda>i. real_of_int i * (1 / (real n * d)))
                  (map int [0..<(n - 1) div 2 + 1] @
                   map (\<lambda>j. int j - int (n div 2)) [0..<n div 2])))"

text \<open>\<^verbatim>\<open>np.roll(xs, s)\<close>: the sample at index \<open>i\<close> moves to index \<open>(i + s) mod n\<close>.\<close>

definition roll :: "'a list \<Rightarrow> int \<Rightarrow> 'a list" where
  "roll xs s = (if xs = [] then [] else rotate (nat ((- s) mod int (length xs))) xs)"

text \<open>\<^verbatim>\<open>np.fft.fftshift\<close> rolls by \<open>n // 2\<close>; \<^verbatim>\<open>np.fft.ifftshift\<close>, which the source
  never calls, rolls by \<open>-(n // 2)\<close>.\<close>

definition fftshift :: "'a list \<Rightarrow> 'a list" where
  "fftshift xs = roll xs (int (length xs div 2))"

definition ifftshift :: "'a list \<Rightarrow> 'a list" where
  "ifftshift xs = roll xs (- int (length xs div 2))"

text \<open>The discrete Fourier transform and its inverse, as \<^verbatim>\<open>np.fft\<close> defines them:
  \<open>A\<^sub>k = \<Sum>\<^sub>m a\<^sub>m exp(-2\<pi>i mk/n)\<close> and \<open>a\<^sub>m = (1/n) \<Sum>\<^sub>k A\<^sub>k exp(2\<pi>i mk/n)\<close>. Both raise
  ValueError on an empty array.\<close>

definition dft :: "complex list \<Rightarrow> complex list" where
  "dft a = map (\<lambda>k. \<Sum>m<length a. a ! m * cis (- (2 * pi * real m * real k / real (length a))))
               [0..<length a]"

definition idft :: "complex list \<Rightarrow> complex list" where
  "idft a = map (\<lambda>m. (\<Sum>k<length a. a ! k * cis (2 * pi * real m * real k / real (length a)))
                       / of_nat (length a))
                [0..<length a]"

definition fft :: "complex list \<Rightarrow> error + complex list" where
  "fft a = (if a = [] then Inl ValueError else Inr (dft a))"

definition ifft :: "complex list \<Rightarrow> error + complex list" where
  "ifft a = (if a = [] then Inl ValueError else Inr (idft a))"

text \<open>\<^verbatim>\<open>np.argmax\<close>: the first index of the maximum; ValueError on an empty array.\<close>

fun first_index :: "('a \<Rightarrow> bool) \<Rightarrow> 'a list \<Rightarrow> nat" where
  "first_index P [] = 0"
| "first_index P (x # xs) = (if P x then 0 else Suc (first_index P xs))"

definition argmax :: "real list \<Rightarrow> error + nat" where
  "argmax xs = (if xs = [] then Inl ValueError
                else Inr (first_index (\<lambda>x. x = Max (set xs)) xs))"

text \<open>The product of two arrays with numpy's broadcasting: equal lengths, or one of the
  two of length one; ValueError otherwise.\<close>

definition np_mul :: "complex list \<Rightarrow> complex list \<Rightarrow> error + complex list" where
  "np_mul xs ys =
     (if length xs = length ys then Inr (map2 (*) xs ys)
      else if length xs = 1 then Inr (map (\<lambda>y. hd xs * y) ys)
      else if length ys = 1 then Inr (map (\<lambda>x. x * hd ys) xs)
      else Inl ValueError)"

text \<open>\<^verbatim>\<open>np.diff\<close> of finite samples, and of samples that may be NaN.\<close>

definition np_diff :: "real list \<Rightarrow> real list" where
  "np_diff xs = map (\<lambda>i. xs ! Suc i - xs ! i) [0..<length xs - 1]"

definition sub_nan :: "real option \<Rightarrow> real option \<Rightarrow> real option" where
  "sub_nan a b = (case (a, b) of (Some x, Some y) \<Rightarrow> Some (x - y) | _ \<Rightarrow> None)"

definition np_diff_nan :: "real option list \<Rightarrow> real option list" where
  "np_diff_nan xs = map (\<lambda>i. sub_nan (xs ! Suc i) (xs ! i)) [0..<length xs - 1]"

text \<open>\<^verbatim>\<open>np.where(a)[0]\<close>: the indices of the non-zero entries. NaN is not equal to zero,
  so the index of a NaN is among them.\<close>

definition np_where :: "real option list \<Rightarrow> nat list" where
  "np_where xs = filter (\<lambda>i. xs ! i \<noteq> Some 0) [0..<length xs]"

text \<open>\<^verbatim>\<open>np.polyval(p, x)\<close>, coefficients highest order first.\<close>

definition polyval :: "real list \<Rightarrow> real \<Rightarrow> real" where
  "polyval p x = foldl (\<lambda>acc a. acc * x + a) 0 p"

subsection \<open>The object\<close>

text \<open>\<^verbatim>\<open>self.c\<close>, assigned once by the constructor.\<close>

definition c_light :: real where
  "c_light = 299792458"

type_synonym interpolator = "real \<Rightarrow> real option"

record state =
  phase_thr :: real
  t_span :: real
  l_0 :: real
  w_0 :: real
  N :: int
  dt :: real
  t :: "real list"
  w :: "real list"
  E_t :: "complex list"
  E_w :: "complex list"
  E_t_out :: "complex list option"
  E_w_out :: "complex list option"
  materials :: "string \<rightharpoonup> interpolator"


subsection \<open>generate_pulse\<close>

text \<open>Lines 87 to 90. In the spectral branch every operand is a Python float, so a zero
  divisor raises; in the temporal branch the divisor \<^verbatim>\<open>np.sqrt(2 * np.log(2))\<close> is not
  zero.\<close>

definition pulse_tau :: "real \<Rightarrow> real \<Rightarrow> string \<Rightarrow> error + real" where
  "pulse_tau fwhm l0 duration_domain =
     (if duration_domain = ''temporal'' then Inr (fwhm / sqrt (2 * ln 2))
      else if fwhm * c_light = 0 then Inl ZeroDivisionError
      else Inr (0.441 * l0\<^sup>2 / (fwhm * c_light)))"

text \<open>One sample of line 92, \<^verbatim>\<open>np.exp(-self.t ** 2 / tau ** 2 + ph)\<close> with \<open>ph = 0\<close>. The
  division is numpy's: for \<open>tau = 0\<close> the quotient is \<open>-inf\<close>, whose exponential is 0,
  except at \<open>t = 0\<close> where it is NaN.\<close>

definition gauss_sample :: "real \<Rightarrow> real \<Rightarrow> real option" where
  "gauss_sample tau x =
     (if tau = 0 then (if x = 0 then None else Some 0)
      else Some (exp (- (x\<^sup>2) / tau\<^sup>2 + 0)))"

definition generate_pulse ::
  "state \<Rightarrow> real \<Rightarrow> real \<Rightarrow> real \<Rightarrow> int option \<Rightarrow> string \<Rightarrow> error + state" where
  "generate_pulse s fwhm l0 tspan n_arg duration_domain =
     (if l0 = 0 then Inl ZeroDivisionError
      else
        let n = (case n_arg of None \<Rightarrow> N s | Some k \<Rightarrow> k) in
        if n = 0 then Inl ZeroDivisionError
        else if n < 0 then Inl ValueError
        else
          let dt' = tspan / real_of_int n;
              tt = linspace (- tspan / 2) (tspan / 2) (nat n)
          in bindE (fftfreq (nat n) dt') (\<lambda>f.
             bindE (pulse_tau fwhm l0 duration_domain) (\<lambda>tau.
             case those (map (gauss_sample tau) tt) of
               None \<Rightarrow> Inl NonFinite
             | Some e \<Rightarrow>
                 bindE (fft (map complex_of_real e)) (\<lambda>ew.
                 Inr (s\<lparr>l_0 := l0, w_0 := 2 * pi * c_light / l0, t_span := tspan,
                        N := n, dt := dt', t := tt,
                        w := fftshift (map (\<lambda>x. 2 * pi * x) f),
                        E_t := map complex_of_real e, E_w := fftshift ew,
                        E_t_out := Some (map complex_of_real e),
                        E_w_out := Some (fftshift ew)\<rparr>)))))"

subsection \<open>propagate_material and reset_propagation\<close>

text \<open>Line 237 and line 240, one entry per sample of \<^verbatim>\<open>self.w\<close>: the index may be NaN,
  and then so are the wavenumber and the exponential.\<close>

definition transfer_raw :: "state \<Rightarrow> interpolator \<Rightarrow> real \<Rightarrow> complex option list" where
  "transfer_raw s ip thickness =
     map (\<lambda>x. map_option
                (\<lambda>nv. exp (- \<i> * complex_of_real ((x + w_0 s) * nv / c_light)
                             * complex_of_real thickness))
                (ip (x + w_0 s)))
         (w s)"

text \<open>Line 241, \<^verbatim>\<open>H_w[np.isnan(H_w)] = 0\<close>.\<close>

definition nan_to_zero :: "complex option list \<Rightarrow> complex list" where
  "nan_to_zero h = map (\<lambda>v. case v of None \<Rightarrow> 0 | Some z \<Rightarrow> z) h"

definition propagate_material :: "state \<Rightarrow> string \<Rightarrow> real \<Rightarrow> error + state" where
  "propagate_material s name thickness =
     (case materials s name of
        None \<Rightarrow> Inr s
      | Some ip \<Rightarrow>
          let H_w = nan_to_zero (transfer_raw s ip thickness) in
          (case E_w_out s of
             None \<Rightarrow> Inl AttributeError
           | Some ew \<Rightarrow>
               bindE (np_mul H_w ew) (\<lambda>ew'.
               bindE (ifft (fftshift ew')) (\<lambda>et'.
               Inr (s\<lparr>E_w_out := Some ew', E_t_out := Some et'\<rparr>)))))"

definition reset_propagation :: "state \<Rightarrow> state" where
  "reset_propagation s = s\<lparr>E_w_out := Some (E_w s), E_t_out := Some (E_t s)\<rparr>"

text \<open>A sequence of calls of \<^verbatim>\<open>propagate_material\<close>, stopping at the first exception.\<close>

fun propagate_all :: "state \<Rightarrow> (string \<times> real) list \<Rightarrow> error + state" where
  "propagate_all s [] = Inr s"
| "propagate_all s ((name, thickness) # calls) =
     bindE (propagate_material s name thickness) (\<lambda>s'. propagate_all s' calls)"

subsection \<open>Intensities\<close>

text \<open>The body shared by \<^verbatim>\<open>get_temporal_intensity\<close> and \<^verbatim>\<open>get_spectral_intensity\<close>,
  which differ in the field they read: the peak is rolled to the middle index, the
  squared magnitude is taken and, on request (the argument \<^verbatim>\<open>norm\<close>, here
  \<open>nrm\<close>), divided by its maximum. The samples are squares, so a maximum of zero makes
  every quotient \<open>0 / 0\<close>, NaN.\<close>

definition centred_intensity :: "complex list \<Rightarrow> bool \<Rightarrow> error + real option list" where
  "centred_intensity e nrm =
     bindE (argmax (map cmod e)) (\<lambda>ind.
       let shift = int (length e) div 2 - int ind;
           I = map (\<lambda>z. (cmod z)\<^sup>2) (roll e shift)
       in if nrm
          then (if Max (set I) = 0 then Inr (map (\<lambda>x. None) I)
                else Inr (map (\<lambda>x. Some (x / Max (set I))) I))
          else Inr (map Some I))"

definition get_temporal_intensity :: "state \<Rightarrow> bool \<Rightarrow> error + real option list option" where
  "get_temporal_intensity s nrm =
     (case E_t_out s of
        None \<Rightarrow> Inl AttributeError
      | Some e \<Rightarrow>
          if length e \<noteq> 0 then bindE (centred_intensity e nrm) (\<lambda>I. Inr (Some I))
          else Inr None)"

definition get_spectral_intensity :: "state \<Rightarrow> bool \<Rightarrow> error + real option list option" where
  "get_spectral_intensity s nrm =
     (case E_w_out s of
        None \<Rightarrow> Inl AttributeError
      | Some e \<Rightarrow>
          if length e \<noteq> 0 then bindE (centred_intensity e nrm) (\<lambda>I. Inr (Some I))
          else Inr None)"

definition get_t :: "state \<Rightarrow> real list" where
  "get_t s = t s"

definition get_w :: "state \<Rightarrow> real list" where
  "get_w s = map (\<lambda>x. x + w_0 s) (w s)"

subsection \<open>Phases\<close>

text \<open>Lines 281 to 290 of \<^verbatim>\<open>get_temporal_phase\<close> and, word for word, lines 352 to 361 of
  \<^verbatim>\<open>get_spectral_phase\<close>. \<^verbatim>\<open>ph[ind + 1:] += d\<close> is \<open>add_from (ind + 1) d\<close>; the
  differences and the list of jump indices are computed once, before the loop.\<close>

definition add_from :: "nat \<Rightarrow> real \<Rightarrow> real list \<Rightarrow> real list" where
  "add_from k d ph = take k ph @ map (\<lambda>x. x + d) (drop k ph)"

definition unravel :: "real list \<Rightarrow> real list" where
  "unravel ph =
     (let ph_diff = np_diff ph;
          ph_ind = filter (\<lambda>i. \<bar>ph_diff ! i\<bar> > 5) [0..<length ph_diff]
      in fold (\<lambda>ind p. if ph_diff ! ind < 0 then add_from (ind + 1) (2 * pi) p
                         else add_from (ind + 1) (- (2 * pi)) p)
              ph_ind ph)"

text \<open>\<^verbatim>\<open>ph[np.where(mag < eps)] = np.nan\<close>.\<close>

definition mask_low :: "real \<Rightarrow> real list \<Rightarrow> real list \<Rightarrow> real option list" where
  "mask_low eps mag ph = map2 (\<lambda>m p. if m < eps then None else Some p) mag ph"

type_synonym polyfit = "real list \<Rightarrow> real list \<Rightarrow> nat \<Rightarrow> error + real list"

text \<open>The branch \<^verbatim>\<open>linear_comp is True\<close> of both phase methods: a first-degree fit to
  the samples that are not NaN, against their indices, subtracted from every sample.\<close>

definition linear_fit_removed :: "polyfit \<Rightarrow> real option list \<Rightarrow> error + real option list" where
  "linear_fit_removed polyfit ph =
     (let idx = filter (\<lambda>i. ph ! i \<noteq> None) [0..<length ph] in
      bindE (polyfit (map real idx) (map (\<lambda>i. the (ph ! i)) idx) 1) (\<lambda>ph_poly.
      Inr (map (\<lambda>i. map_option (\<lambda>v. v - polyval ph_poly (real i)) (ph ! i))
               [0..<length ph])))"

definition get_temporal_phase ::
  "polyfit \<Rightarrow> state \<Rightarrow> bool \<Rightarrow> error + real option list option" where
  "get_temporal_phase polyfit s linear_comp =
     (case E_t_out s of
        None \<Rightarrow> Inl AttributeError
      | Some e \<Rightarrow>
          if length e \<noteq> 0 then
            bindE (argmax (map cmod e)) (\<lambda>ind.
              let shift = int (length e) div 2 - int ind;
                  Et = roll e shift;
                  ph0_ind = length Et div 2;
                  ph = unravel (map Arg Et);
                  ph0 = ph ! ph0_ind;
                  ph' = mask_low (phase_thr s) (map cmod Et) ph
              in if linear_comp
                 then bindE (linear_fit_removed polyfit ph') (\<lambda>ph_out. Inr (Some ph_out))
                 else Inr (Some (map (map_option (\<lambda>v. v - ph0)) ph')))
          else Inr None)"

text \<open>\<^verbatim>\<open>get_spectral_phase\<close> guards with \<^verbatim>\<open>self.E_t_out is not None\<close>, not with the
  size of the array. \<^verbatim>\<open>Ew /= abs(Ew).max()\<close> divides by zero when the spectrum is zero
  throughout: every sample is then NaN, \<^verbatim>\<open>np.argmax\<close> of an all-NaN array is 0, no
  difference exceeds 5 and no magnitude is below the threshold.\<close>

definition get_spectral_phase ::
  "polyfit \<Rightarrow> state \<Rightarrow> bool \<Rightarrow> error + real option list option" where
  "get_spectral_phase polyfit s linear_comp =
     (case E_t_out s of
        None \<Rightarrow> Inr None
      | Some e \<Rightarrow>
          bindE (argmax (map cmod e)) (\<lambda>ind.
          bindE (fft (roll e (- int ind))) (\<lambda>F.
            let Ew0 = fftshift F;
                m = Max (set (map cmod Ew0))
            in bindE (if m = 0 then Inr (0, map (\<lambda>z. None) Ew0)
                      else
                        let Ew = map (\<lambda>z. z / complex_of_real m) Ew0 in
                        bindE (argmax (map cmod Ew)) (\<lambda>ph0_ind.
                        Inr (ph0_ind,
                             mask_low (phase_thr s) (map cmod Ew) (unravel (map Arg Ew)))))
               (\<lambda>(ph0_ind, ph).
                  bindE (if linear_comp then linear_fit_removed polyfit ph else Inr ph)
                    (\<lambda>ph_out. Inr (Some (map (\<lambda>p. sub_nan p (ph_out ! ph0_ind)) ph_out)))))))"

text \<open>\<^verbatim>\<open>get_spectral_phase_expansion\<close>: \<^verbatim>\<open>w[ph_ind]\<close> is a boolean index, which needs
  the two arrays to be of one length; \<^verbatim>\<open>w[ph_ind] / prefix\<close> is numpy's division, and a
  zero \<^verbatim>\<open>prefix\<close> gives infinite or NaN abscissae, if there are any.\<close>

definition get_spectral_phase_expansion ::
  "polyfit \<Rightarrow> state \<Rightarrow> nat \<Rightarrow> real \<Rightarrow> error + real list option" where
  "get_spectral_phase_expansion polyfit s orders prefix =
     (case E_t_out s of
        None \<Rightarrow> Inr None
      | Some e \<Rightarrow>
          let wv = get_w s in
          bindE (get_spectral_phase polyfit s True) (\<lambda>r.
            case r of
              None \<Rightarrow> Inl TypeError
            | Some ph \<Rightarrow>
                let ph_ind = filter (\<lambda>i. ph ! i \<noteq> None) [0..<length ph];
                    ph_good = map (\<lambda>i. the (ph ! i)) ph_ind
                in if length wv \<noteq> length ph then Inl IndexError
                   else if prefix = 0 \<and> ph_ind \<noteq> [] then Inl NonFinite
                   else bindE (polyfit (map (\<lambda>i. wv ! i / prefix) ph_ind) ph_good orders)
                          (\<lambda>ph_poly. Inr (Some ph_poly))))"

subsection \<open>get_pulse_duration\<close>

text \<open>\<^verbatim>\<open>I - 0.5\<close> raises TypeError when the intensity method returned \<^verbatim>\<open>None\<close>. The
  result is a float that may be NaN.\<close>

definition get_pulse_duration :: "state \<Rightarrow> string \<Rightarrow> error + real option" where
  "get_pulse_duration s domain =
     bindE (if domain = ''temporal'' then get_temporal_intensity s True
            else get_spectral_intensity s True) (\<lambda>r.
       let x = (if domain = ''temporal'' then get_t s else get_w s) in
       case r of
         None \<Rightarrow> Inl TypeError
       | Some I \<Rightarrow>
           let x_ind = np_where (np_diff_nan (map (map_option (\<lambda>v. sgn (v - 0.5))) I)) in
           if length x_ind > 1
           then (if last x_ind < length x then Inr (Some (x ! last x_ind - x ! hd x_ind))
                 else Inl IndexError)
           else Inr None)"

subsection \<open>Properties stated by the specification\<close>

text \<open>A pulse has been generated: the output spectrum is a non-empty array with one
  sample per entry of the frequency grid.\<close>

definition pulse_ready :: "state \<Rightarrow> bool" where
  "pulse_ready s \<longleftrightarrow> (\<exists>ew. E_w_out s = Some ew \<and> ew \<noteq> [] \<and> length ew = length (w s))"

text \<open>The two output arrays are a Fourier-transform pair, with the reorder the source
  applies before the inverse transform (line 243).\<close>

definition fourier_pair :: "state \<Rightarrow> bool" where
  "fourier_pair s =
     (case (E_t_out s, E_w_out s) of
        (Some et, Some ew) \<Rightarrow> ifft (fftshift ew) = Inr et
      | _ \<Rightarrow> False)"

text \<open>The correction the unwrapping step owes to sample \<open>j\<close>: \<open>2\<pi>\<close> for every jump below
  \<open>-5\<close> and \<open>-2\<pi>\<close> for every jump above 5 among the differences, of the phase as it was
  before any correction, at the indices before \<open>j\<close>.\<close>

definition jump_correction :: "real list \<Rightarrow> nat \<Rightarrow> real" where
  "jump_correction ph j =
     2 * pi * real (length (filter (\<lambda>i. ph ! Suc i - ph ! i < - 5) [0..<j]))
     - 2 * pi * real (length (filter (\<lambda>i. ph ! Suc i - ph ! i > 5) [0..<j]))"

text \<open>The indices at which \<open>I - 1/2\<close> changes sign from one sample to the next.\<close>

definition crossings :: "real list \<Rightarrow> nat set" where
  "crossings I = {i. Suc i < length I \<and> sgn (I ! Suc i - 1 / 2) \<noteq> sgn (I ! i - 1 / 2)}"

subsection \<open>Concrete objects\<close>

text \<open>A material characterised between the angular frequencies 1 and 3, and an object of
  two samples whose second sample lies in that band and whose first does not.\<close>

definition demo_glass :: interpolator where
  "demo_glass x = (if 1 \<le> x \<and> x \<le> 3 then Some (3 / 2) else None)"

text \<open>A medium of index 1 at every frequency.\<close>

definition demo_vacuum :: interpolator where
  "demo_vacuum x = Some 1"

definition demo_state :: state where
  "demo_state =
     \<lparr>phase_thr = 1 / 100, t_span = 2, l_0 = 1, w_0 = 2, N = 2, dt = 1,
      t = [- 1, 1], w = [- pi, 0], E_t = [1, 1], E_w = [0, 2],
      E_t_out = Some [1, 1], E_w_out = Some [0, 2],
      materials = [''glass'' \<mapsto> demo_glass, ''vacuum'' \<mapsto> demo_vacuum]\<rparr>"

section \<open>Basic facts\<close>

lemma bindE_simps [simp]: "bindE (Inl e) f = Inl e" "bindE (Inr x) f = f x"
  by (simp_all add: bindE_def)

lemma bindE_Inr_iff: "bindE m f = Inr y \<longleftrightarrow> (\<exists>x. m = Inr x \<and> f x = Inr y)"
  by (cases m) simp_all

lemma length_roll [simp]: "length (roll xs k) = length xs"
  by (simp add: roll_def)

lemma length_fftshift [simp]: "length (fftshift xs) = length xs"
  by (simp add: fftshift_def)

lemma length_dft [simp]: "length (dft a) = length a"
  by (simp add: dft_def)

lemma length_idft [simp]: "length (idft a) = length a"
  by (simp add: idft_def)

lemma dft_eq_Nil [simp]: "dft a = [] \<longleftrightarrow> a = []"
  by (simp add: dft_def)

lemma idft_eq_Nil [simp]: "idft a = [] \<longleftrightarrow> a = []"
  by (simp add: idft_def)

lemma roll_eq_Nil [simp]: "roll xs k = [] \<longleftrightarrow> xs = []"
  by (simp add: roll_def)

lemma fftshift_eq_Nil [simp]: "fftshift xs = [] \<longleftrightarrow> xs = []"
  by (simp add: fftshift_def)

lemma length_linspace [simp]: "length (linspace a b n) = n"
  by (simp add: linspace_def)

lemma fftfreq_length: "fftfreq n d = Inr f \<Longrightarrow> length f = n"
  by (auto simp: fftfreq_def split: if_splits)

lemma those_length: "those xs = Some ys \<Longrightarrow> length ys = length xs"
  by (induction xs arbitrary: ys) (auto split: option.splits)

lemma propagate_material_reference:
  "propagate_material s name d = Inr s' \<Longrightarrow>
   E_t s' = E_t s \<and> E_w s' = E_w s \<and> w s' = w s \<and> w_0 s' = w_0 s \<and> materials s' = materials s"
  by (auto simp: propagate_material_def bindE_Inr_iff Let_def split: option.splits)

lemma propagate_all_reference:
  "propagate_all s calls = Inr s' \<Longrightarrow> E_t s' = E_t s \<and> E_w s' = E_w s"
proof (induction calls arbitrary: s)
  case Nil
  then show ?case by simp
next
  case (Cons call calls)
  obtain name d where call: "call = (name, d)" by (cases call)
  from Cons.prems obtain s1 where s1: "propagate_material s name d = Inr s1"
    and rest: "propagate_all s1 calls = Inr s'"
    by (auto simp: call bindE_Inr_iff)
  from Cons.IH [OF rest] propagate_material_reference [OF s1] show ?case by simp
qed

lemma generate_pulse_fields:
  assumes "generate_pulse s fwhm l0 tspan n_arg dd = Inr s1"
  shows "E_t_out s1 = Some (E_t s1)" "E_w_out s1 = Some (E_w s1)"
    "length (w s1) = length (E_w s1)" "E_w s1 \<noteq> []"
  using assms
  by (auto simp: generate_pulse_def Let_def bindE_Inr_iff fft_def
      dest!: fftfreq_length those_length split: if_splits option.splits)

section \<open>Propagation through an unknown material\<close>

text \<open>
  Claim C2. For every material name that is not a key of the catalogue and every
  thickness, \<^verbatim>\<open>propagate_material\<close> raises no exception and returns the object as it
  was: neither output array nor any other attribute changes.
\<close>

theorem propagate_unknown_material_noop:
  "materials s name = None \<Longrightarrow> propagate_material s name thickness = Inr s"
  by (simp add: propagate_material_def)

theorem propagate_unknown_material_noop_witness:
  "materials demo_state ''bk7'' = None \<and>
   propagate_material demo_state ''bk7'' (1 / 100) = Inr demo_state"
  using propagate_unknown_material_noop [of demo_state "''bk7''" "1 / 100"]
  by (simp add: demo_state_def)


section \<open>Resetting the propagation\<close>

lemma np_mul_ready:
  "ew \<noteq> [] \<Longrightarrow> length h = length ew \<Longrightarrow> \<exists>ew'. np_mul h ew = Inr ew' \<and> ew' \<noteq> [] \<and> length ew' = length ew"
  by (auto simp: np_mul_def)

lemma length_transfer [simp]: "length (nan_to_zero (transfer_raw s ip d)) = length (w s)"
  by (simp add: nan_to_zero_def transfer_raw_def)

lemma propagate_material_ready:
  assumes "pulse_ready s"
  shows "\<exists>s'. propagate_material s name d = Inr s' \<and> pulse_ready s'"
proof (cases "materials s name")
  case None
  with assms show ?thesis by (simp add: propagate_material_def)
next
  case (Some ip)
  from assms obtain ew where ew: "E_w_out s = Some ew" "ew \<noteq> []" "length ew = length (w s)"
    by (auto simp: pulse_ready_def)
  let ?h = "nan_to_zero (transfer_raw s ip d)"
  from np_mul_ready [of ew ?h] ew obtain ew' where
    ew': "np_mul ?h ew = Inr ew'" "ew' \<noteq> []" "length ew' = length ew"
    by auto
  show ?thesis
    using Some ew ew'
    by (simp add: propagate_material_def Let_def ifft_def pulse_ready_def)
qed

lemma propagate_all_ready:
  "pulse_ready s \<Longrightarrow> \<exists>s'. propagate_all s calls = Inr s' \<and> pulse_ready s'"
proof (induction calls arbitrary: s)
  case Nil
  then show ?case by simp
next
  case (Cons call calls)
  obtain name d where call: "call = (name, d)" by (cases call)
  from propagate_material_ready [OF Cons.prems, of name d] obtain s1
    where s1: "propagate_material s name d = Inr s1" "pulse_ready s1" by blast
  from Cons.IH [OF s1(2)] s1(1) show ?case by (simp add: call)
qed

lemma generate_pulse_ready:
  "generate_pulse s fwhm l0 tspan n_arg dd = Inr s1 \<Longrightarrow> pulse_ready s1"
  using generate_pulse_fields [of s fwhm l0 tspan n_arg dd s1]
  by (simp add: pulse_ready_def)

text \<open>
  Claim C1. After a call of \<^verbatim>\<open>generate_pulse\<close> that returned, every sequence of calls of
  \<^verbatim>\<open>propagate_material\<close> returns, and \<^verbatim>\<open>reset_propagation\<close> then puts the
  output fields back to what they were right after the generation, which are the
  reference fields \<^verbatim>\<open>E_t\<close> and \<^verbatim>\<open>E_w\<close>; so \<^verbatim>\<open>get_temporal_intensity\<close> and
  \<^verbatim>\<open>get_spectral_intensity\<close> return what they returned right after the generation.
\<close>

theorem reset_restores_reference:
  assumes "generate_pulse s fwhm l0 tspan n_arg dd = Inr s1"
  shows "\<exists>s2. propagate_all s1 calls = Inr s2
      \<and> E_t_out (reset_propagation s2) = E_t_out s1
      \<and> E_w_out (reset_propagation s2) = E_w_out s1
      \<and> E_t_out s1 = Some (E_t s1) \<and> E_w_out s1 = Some (E_w s1)
      \<and> get_temporal_intensity (reset_propagation s2) nrm = get_temporal_intensity s1 nrm
      \<and> get_spectral_intensity (reset_propagation s2) nrm = get_spectral_intensity s1 nrm"
proof -
  from propagate_all_ready [OF generate_pulse_ready [OF assms], of calls]
  obtain s2 where s2: "propagate_all s1 calls = Inr s2" by blast
  from propagate_all_reference [OF s2] have ref: "E_t s2 = E_t s1" "E_w s2 = E_w s1" by simp_all
  from generate_pulse_fields [OF assms] have out: "E_t_out s1 = Some (E_t s1)" "E_w_out s1 = Some (E_w s1)"
    by simp_all
  have "E_t_out (reset_propagation s2) = E_t_out s1" "E_w_out (reset_propagation s2) = E_w_out s1"
    using ref out by (simp_all add: reset_propagation_def)
  then show ?thesis using s2 out
    by (simp add: get_temporal_intensity_def get_spectral_intensity_def)
qed

lemma generate_pulse_temporal_succeeds:
  assumes "l0 \<noteq> 0" "0 < n" "tspan \<noteq> 0" "fwhm \<noteq> 0"
  shows "\<exists>s1. generate_pulse s fwhm l0 tspan (Some n) ''temporal'' = Inr s1"
proof -
  have tau: "fwhm / sqrt (2 * ln 2) \<noteq> 0" using assms by simp
  have fr: "\<exists>f. fftfreq (nat n) (tspan / real_of_int n) = Inr f"
    using assms by (simp add: fftfreq_def)
  have th: "\<exists>e. those (map (gauss_sample (fwhm / sqrt (2 * ln 2))) xs) = Some e \<and> length e = length xs" for xs
    using tau by (induction xs) (auto simp: gauss_sample_def)
  from th [of "linspace (- tspan / 2) (tspan / 2) (nat n)"] obtain e where
    e: "those (map (gauss_sample (fwhm / sqrt (2 * ln 2))) (linspace (- tspan / 2) (tspan / 2) (nat n))) = Some e"
     "length e = nat n" by auto
  from e assms have "e \<noteq> []" by auto
  with fr e assms show ?thesis
    by (auto simp: generate_pulse_def Let_def pulse_tau_def fft_def)
qed

theorem reset_restores_reference_witness:
  "\<exists>s1 s2. generate_pulse demo_state 1 1 2 (Some 2) ''temporal'' = Inr s1
     \<and> propagate_all s1 [(''glass'', 1 / 100), (''bk7'', 1 / 100), (''glass'', 1 / 50)] = Inr s2
     \<and> E_t_out (reset_propagation s2) = E_t_out s1
     \<and> E_w_out (reset_propagation s2) = E_w_out s1
     \<and> get_temporal_intensity (reset_propagation s2) True = get_temporal_intensity s1 True
     \<and> get_spectral_intensity (reset_propagation s2) True = get_spectral_intensity s1 True"
proof -
  obtain s1 where s1: "generate_pulse demo_state 1 1 2 (Some 2) ''temporal'' = Inr s1"
    using generate_pulse_temporal_succeeds [of 1 2 2 1 demo_state] by auto
  from reset_restores_reference [OF s1, of "[(''glass'', 1 / 100), (''bk7'', 1 / 100), (''glass'', 1 / 50)]" True]
  show ?thesis using s1 by blast
qed


section \<open>Propagation through a known material\<close>

lemma np_mul_nth_left_zero:
  assumes "np_mul h ew = Inr ew'" "i < length h" "h ! i = 0" "ew' \<noteq> []"
  shows "i < length ew' \<and> ew' ! i = 0"
proof -
  consider (eq) "length h = length ew"
    | (one) "length h \<noteq> length ew" "length h = 1"
    | (bro) "length h \<noteq> length ew" "length h \<noteq> 1" "length ew = 1"
    using assms(1) by (auto simp: np_mul_def split: if_splits)
  then show ?thesis
  proof cases
    case eq
    with assms show ?thesis by (auto simp: np_mul_def)
  next
    case one
    with assms(2) have i0: "i = 0" by simp
    from one obtain a where h: "h = [a]" by (cases h) auto
    with assms(3) i0 have "a = 0" by simp
    with one h assms(1) have ew': "ew' = map (\<lambda>y. 0 * y) ew"
      by (auto simp: np_mul_def split: if_splits)
    with assms(4) have "ew \<noteq> []" by auto
    then show ?thesis by (simp add: ew' i0)
  next
    case bro
    with assms show ?thesis by (auto simp: np_mul_def split: if_splits)
  qed
qed

text \<open>
  Claim C3. In \<^verbatim>\<open>propagate_material\<close> on a known material, at every sample of the
  frequency grid where the index lookup is NaN the exponential of line 240 is NaN, line
  241 makes the transfer function exactly 0 there, and the sample of the new \<^verbatim>\<open>E_w_out\<close>
  at that index is 0; the new \<^verbatim>\<open>E_w_out\<close> is the product of the masked transfer function
  with the old one and the new \<^verbatim>\<open>E_t_out\<close> its inverse transform, arrays of finite
  complex samples both.
\<close>

theorem propagate_undefined_index_zero:
  assumes "materials s name = Some ip"
    and "i < length (w s)"
    and "ip (w s ! i + w_0 s) = None"
    and "propagate_material s name thickness = Inr s'"
  shows "transfer_raw s ip thickness ! i = None
    \<and> nan_to_zero (transfer_raw s ip thickness) ! i = 0
    \<and> (\<exists>ew ew' et'. E_w_out s = Some ew
          \<and> np_mul (nan_to_zero (transfer_raw s ip thickness)) ew = Inr ew'
          \<and> E_w_out s' = Some ew' \<and> i < length ew' \<and> ew' ! i = 0
          \<and> E_t_out s' = Some et' \<and> ifft (fftshift ew') = Inr et')"
proof -
  let ?h = "nan_to_zero (transfer_raw s ip thickness)"
  have raw: "transfer_raw s ip thickness ! i = None"
    using assms(2,3) by (simp add: transfer_raw_def)
  have len: "i < length ?h" using assms(2) by simp
  have zero: "?h ! i = 0"
    using assms(2) raw by (simp add: nan_to_zero_def transfer_raw_def)
  from assms(1,4) obtain ew ew' et' where
    ew: "E_w_out s = Some ew" and mul: "np_mul ?h ew = Inr ew'"
    and inv: "ifft (fftshift ew') = Inr et'"
    and s': "s' = s\<lparr>E_w_out := Some ew', E_t_out := Some et'\<rparr>"
    by (auto simp: propagate_material_def Let_def bindE_Inr_iff split: option.splits)
  from inv have ne: "ew' \<noteq> []" by (auto simp: ifft_def split: if_splits)
  from np_mul_nth_left_zero [OF mul len zero ne] raw zero ew mul inv s'
  show ?thesis by simp
qed

lemma pulse_ready_demo: "pulse_ready demo_state"
  by (simp add: pulse_ready_def demo_state_def)

theorem propagate_undefined_index_zero_witness:
  "\<exists>s'. propagate_material demo_state ''glass'' (1 / 100) = Inr s'
     \<and> demo_glass (w demo_state ! 0 + w_0 demo_state) = None
     \<and> nan_to_zero (transfer_raw demo_state demo_glass (1 / 100)) ! 0 = 0
     \<and> (\<exists>ew'. E_w_out s' = Some ew' \<and> ew' ! 0 = 0)"
proof -
  obtain s' where s': "propagate_material demo_state ''glass'' (1 / 100) = Inr s'"
    using propagate_material_ready [OF pulse_ready_demo] by blast
  have m: "materials demo_state ''glass'' = Some demo_glass"
    by (simp add: demo_state_def)
  have i: "0 < length (w demo_state)" by (simp add: demo_state_def)
  have u: "demo_glass (w demo_state ! 0 + w_0 demo_state) = None"
    using pi_gt_zero pi_ge_two by (simp add: demo_state_def demo_glass_def)
  from propagate_undefined_index_zero [OF m i u s'] s' u show ?thesis by blast
qed


section \<open>Thicknesses add up\<close>

lemma transfer_same_grid:
  "w s' = w s \<Longrightarrow> w_0 s' = w_0 s \<Longrightarrow> transfer_raw s' ip d = transfer_raw s ip d"
  by (simp add: transfer_raw_def)

lemma transfer_sample_add:
  "(case map_option (\<lambda>nv. exp (- \<i> * complex_of_real (k nv) * complex_of_real (d1 + d2))) v of
      None \<Rightarrow> 0 | Some z \<Rightarrow> z)
   = (case map_option (\<lambda>nv. exp (- \<i> * complex_of_real (k nv) * complex_of_real d1)) v of
        None \<Rightarrow> 0 | Some z \<Rightarrow> z)
     * (case map_option (\<lambda>nv. exp (- \<i> * complex_of_real (k nv) * complex_of_real d2)) v of
          None \<Rightarrow> 0 | Some z \<Rightarrow> z)"
proof (cases v)
  case None
  then show ?thesis by simp
next
  case (Some nv)
  have "- \<i> * complex_of_real (k nv) * complex_of_real (d1 + d2)
      = - \<i> * complex_of_real (k nv) * complex_of_real d1
        + - \<i> * complex_of_real (k nv) * complex_of_real d2"
    by (simp add: algebra_simps)
  then show ?thesis using Some by (simp only: exp_add [symmetric] option.simps option.map)
qed

lemma transfer_add:
  "nan_to_zero (transfer_raw s ip (d1 + d2))
   = map2 (*) (nan_to_zero (transfer_raw s ip d1)) (nan_to_zero (transfer_raw s ip d2))"
proof (rule nth_equalityI)
  show "length (nan_to_zero (transfer_raw s ip (d1 + d2)))
      = length (map2 (*) (nan_to_zero (transfer_raw s ip d1)) (nan_to_zero (transfer_raw s ip d2)))"
    by simp
next
  fix i assume "i < length (nan_to_zero (transfer_raw s ip (d1 + d2)))"
  then have i: "i < length (w s)" by simp
  then show "nan_to_zero (transfer_raw s ip (d1 + d2)) ! i
      = map2 (*) (nan_to_zero (transfer_raw s ip d1)) (nan_to_zero (transfer_raw s ip d2)) ! i"
    using transfer_sample_add [of "\<lambda>nv. (w s ! i + w_0 s) * nv / c_light" d1 d2 "ip (w s ! i + w_0 s)"]
    by (simp add: nan_to_zero_def transfer_raw_def)
qed

lemma np_mul_twice:
  assumes "length h1 = length h2"
  shows "bindE (np_mul h1 ew) (\<lambda>ew1. if ew1 = [] then Inl ValueError else np_mul h2 ew1)
       = bindE (np_mul (map2 (*) h1 h2) ew) (\<lambda>ew'. if ew' = [] then Inl ValueError else Inr ew')"
proof -
  consider (eq) "length h1 = length ew"
    | (one) "length h1 \<noteq> length ew" "length h1 = 1"
    | (bro) "length h1 \<noteq> length ew" "length h1 \<noteq> 1" "length ew = 1"
    | (bad) "length h1 \<noteq> length ew" "length h1 \<noteq> 1" "length ew \<noteq> 1"
    by blast
  then show ?thesis
  proof cases
    case eq
    have "map2 (*) h2 (map2 (*) h1 ew) = map2 (*) (map2 (*) h1 h2) ew"
      using eq assms by (intro nth_equalityI) (simp_all add: mult_ac)
    with eq assms show ?thesis by (auto simp: np_mul_def)
  next
    case one
    with assms obtain a b where h: "h1 = [a]" "h2 = [b]"
      by (cases h1; cases h2) auto
    with one show ?thesis by (auto simp: np_mul_def mult_ac)
  next
    case bro
    then obtain e0 where ew: "ew = [e0]" by (cases ew) auto
    have "map2 (*) h2 (map (\<lambda>x. x * e0) h1) = map (\<lambda>x. x * e0) (map2 (*) h1 h2)"
      using assms by (intro nth_equalityI) (simp_all add: mult_ac)
    with bro assms ew show ?thesis by (auto simp: np_mul_def)
  next
    case bad
    with assms show ?thesis by (simp add: np_mul_def)
  qed
qed

lemma propagate_material_unfold:
  "materials s name = Some ip \<Longrightarrow> E_w_out s = Some ew \<Longrightarrow>
   propagate_material s name d =
     bindE (np_mul (nan_to_zero (transfer_raw s ip d)) ew) (\<lambda>ew'.
       if ew' = [] then Inl ValueError
       else Inr (s\<lparr>E_w_out := Some ew', E_t_out := Some (idft (fftshift ew'))\<rparr>))"
  by (cases "np_mul (nan_to_zero (transfer_raw s ip d)) ew")
     (simp_all add: propagate_material_def ifft_def)


lemma second_call:
  assumes "materials s name = Some ip"
  shows "propagate_material (s\<lparr>E_w_out := Some ew1, E_t_out := Some et1\<rparr>) name d2
        = bindE (np_mul (nan_to_zero (transfer_raw s ip d2)) ew1) (\<lambda>ew'.
            if ew' = [] then Inl ValueError
            else Inr (s\<lparr>E_w_out := Some ew', E_t_out := Some (idft (fftshift ew'))\<rparr>))"
proof -
  let ?s1 = "s\<lparr>E_w_out := Some ew1, E_t_out := Some et1\<rparr>"
  have m: "materials ?s1 name = Some ip" using assms by simp
  have e: "E_w_out ?s1 = Some ew1" by simp
  have tr: "transfer_raw ?s1 ip d2 = transfer_raw s ip d2"
    by (rule transfer_same_grid) simp_all
  show ?thesis
    unfolding propagate_material_unfold [OF m e] tr
    by (cases "np_mul (nan_to_zero (transfer_raw s ip d2)) ew1") simp_all
qed


text \<open>Two calls on one name, with thicknesses \<open>d1\<close> then \<open>d2\<close>, give what one call with
  thickness \<open>d1 + d2\<close> gives from the same object, the same exception or the same object,
  for every name (known or not) and every object.\<close>

lemma propagate_twice_eq:
  "bindE (propagate_material s name d1) (\<lambda>s'. propagate_material s' name d2)
   = propagate_material s name (d1 + d2)"
proof (cases "materials s name")
  case None
  then show ?thesis by (simp add: propagate_material_def)
next
  case (Some ip)
  show ?thesis
  proof (cases "E_w_out s")
    case None
    with Some show ?thesis by (simp add: propagate_material_def)
  next
    case ew: (Some ew)
    let ?h1 = "nan_to_zero (transfer_raw s ip d1)"
    let ?h2 = "nan_to_zero (transfer_raw s ip d2)"
    let ?fin = "\<lambda>ew'. if ew' = [] then Inl ValueError
        else Inr (s\<lparr>E_w_out := Some ew', E_t_out := Some (idft (fftshift ew'))\<rparr>)"
    have len: "length ?h1 = length ?h2" by simp
    have "bindE (propagate_material s name d1) (\<lambda>s'. propagate_material s' name d2)
        = bindE (bindE (np_mul ?h1 ew) (\<lambda>ew1. if ew1 = [] then Inl ValueError else np_mul ?h2 ew1))
            ?fin"
      unfolding propagate_material_unfold [OF Some ew]
      by (cases "np_mul ?h1 ew") (simp_all add: second_call [OF Some])
    also have "\<dots> = bindE (bindE (np_mul (map2 (*) ?h1 ?h2) ew)
            (\<lambda>ew'. if ew' = [] then Inl ValueError else Inr ew')) ?fin"
      unfolding np_mul_twice [OF len] ..
    also have "\<dots> = bindE (np_mul (map2 (*) ?h1 ?h2) ew) ?fin"
      by (cases "np_mul (map2 (*) ?h1 ?h2) ew") simp_all
    also have "\<dots> = propagate_material s name (d1 + d2)"
      unfolding propagate_material_unfold [OF Some ew] transfer_add ..
    finally show ?thesis .
  qed
qed

lemma transfer_explicit:
  "nan_to_zero (transfer_raw s ip d)
   = map (\<lambda>x. case ip (x + w_0 s) of
                 None \<Rightarrow> 0
               | Some nv \<Rightarrow> exp (- \<i> * complex_of_real ((x + w_0 s) * nv / c_light)
                                 * complex_of_real d))
         (w s)"
  unfolding nan_to_zero_def transfer_raw_def map_map
  by (rule map_cong [OF refl]) (simp split: option.splits)

lemma propagate_material_product:
  assumes "materials s name = Some ip" and "E_w_out s = Some ew"
    and "ew \<noteq> []" and "length ew = length (w s)"
  shows "propagate_material s name d
       = Inr (s\<lparr>E_w_out := Some (map2 (*) (nan_to_zero (transfer_raw s ip d)) ew),
                E_t_out := Some (idft (fftshift
                             (map2 (*) (nan_to_zero (transfer_raw s ip d)) ew)))\<rparr>)"
proof -
  have m: "np_mul (nan_to_zero (transfer_raw s ip d)) ew
      = Inr (map2 (*) (nan_to_zero (transfer_raw s ip d)) ew)"
    using assms(4) by (simp add: np_mul_def)
  have "length (map2 (*) (nan_to_zero (transfer_raw s ip d)) ew) = length ew"
    using assms(4) by simp
  then have ne: "map2 (*) (nan_to_zero (transfer_raw s ip d)) ew \<noteq> []"
    by (metis assms(3) length_0_conv)
  show ?thesis
    unfolding propagate_material_unfold [OF assms(1,2)] m using ne by simp
qed

text \<open>
  Claim C4. On a known material and an object that holds a pulse, every call of
  \<^verbatim>\<open>propagate_material\<close> returns and multiplies the output spectrum, sample by sample,
  by the transfer function \<open>H(d)\<close>, which is \<open>exp(-i k d)\<close> with
  \<open>k = (w + w_0) n(w + w_0) / c\<close> where the index is defined and 0 where it is NaN, and
  recomputes the output field in time from it. So a call with thickness \<open>d1\<close> followed by
  a call with thickness \<open>d2\<close> ends in the very object that one call with thickness
  \<open>d1 + d2\<close> gives: \<open>H(d2) H(d1) = H(d1 + d2)\<close> at every sample.
\<close>

theorem propagate_thickness_additive:
  assumes "materials s name = Some ip" and "E_w_out s = Some ew"
    and "ew \<noteq> []" and "length ew = length (w s)"
    and "\<And>d. H d = map (\<lambda>x. case ip (x + w_0 s) of
                              None \<Rightarrow> 0
                            | Some nv \<Rightarrow> exp (- \<i> * complex_of_real ((x + w_0 s) * nv / c_light)
                                              * complex_of_real d))
                      (w s)"
  shows "\<exists>s1 s2. propagate_material s name d1 = Inr s1
      \<and> propagate_material s1 name d2 = Inr s2
      \<and> propagate_material s name (d1 + d2) = Inr s2
      \<and> E_w_out s1 = Some (map2 (*) (H d1) ew)
      \<and> E_t_out s1 = Some (idft (fftshift (map2 (*) (H d1) ew)))
      \<and> E_w_out s2 = Some (map2 (*) (H d2) (map2 (*) (H d1) ew))
      \<and> E_w_out s2 = Some (map2 (*) (H (d1 + d2)) ew)
      \<and> E_t_out s2 = Some (idft (fftshift (map2 (*) (H (d1 + d2)) ew)))"
proof -
  have H: "H d = nan_to_zero (transfer_raw s ip d)" for d
    unfolding assms(5) transfer_explicit ..
  define s1 where "s1 = s\<lparr>E_w_out := Some (map2 (*) (H d1) ew),
      E_t_out := Some (idft (fftshift (map2 (*) (H d1) ew)))\<rparr>"
  define s2 where "s2 = s\<lparr>E_w_out := Some (map2 (*) (H (d1 + d2)) ew),
      E_t_out := Some (idft (fftshift (map2 (*) (H (d1 + d2)) ew)))\<rparr>"
  have p1: "propagate_material s name d1 = Inr s1"
    unfolding s1_def H by (rule propagate_material_product [OF assms(1-4)])
  have p12: "propagate_material s name (d1 + d2) = Inr s2"
    unfolding s2_def H by (rule propagate_material_product [OF assms(1-4)])
  have "propagate_material s1 name d2
      = bindE (propagate_material s name d1) (\<lambda>s'. propagate_material s' name d2)"
    by (simp add: p1)
  also have "\<dots> = Inr s2" unfolding propagate_twice_eq p12 ..
  finally have p2: "propagate_material s1 name d2 = Inr s2" .
  have m1: "materials s1 name = Some ip" and e1: "E_w_out s1 = Some (map2 (*) (H d1) ew)"
    and w1: "w s1 = w s" "w_0 s1 = w_0 s"
    using assms(1) by (simp_all add: s1_def)
  have "length (map2 (*) (H d1) ew) = length ew"
    using assms(4) by (simp add: H)
  then have ne1: "map2 (*) (H d1) ew \<noteq> []"
    by (metis assms(3) length_0_conv)
  have l1: "length (map2 (*) (H d1) ew) = length (w s1)"
    using assms(4) by (simp add: H w1)
  from propagate_material_product [OF m1 e1 ne1 l1, of d2] p2
  have "E_w_out s2 = Some (map2 (*) (nan_to_zero (transfer_raw s1 ip d2)) (map2 (*) (H d1) ew))"
    by auto
  then have twice: "E_w_out s2 = Some (map2 (*) (H d2) (map2 (*) (H d1) ew))"
    by (simp add: H transfer_same_grid [OF w1])
  show ?thesis
    using p1 p2 p12 twice
    by (intro exI [of _ s1] exI [of _ s2]) (simp add: s1_def s2_def)
qed

theorem propagate_thickness_additive_witness:
  "\<exists>s1 s2. propagate_material demo_state ''glass'' 1 = Inr s1
     \<and> propagate_material s1 ''glass'' 2 = Inr s2
     \<and> propagate_material demo_state ''glass'' (1 + 2) = Inr s2
     \<and> E_w_out s1 = Some [0, exp (- \<i> * complex_of_real (2 * (3 / 2) / c_light) * 1) * 2]
     \<and> E_w_out s2 = Some [0, exp (- \<i> * complex_of_real (2 * (3 / 2) / c_light) * 3) * 2]"
proof -
  let ?H = "\<lambda>d. map (\<lambda>x. case demo_glass (x + w_0 demo_state) of
        None \<Rightarrow> 0
      | Some nv \<Rightarrow> exp (- \<i> * complex_of_real ((x + w_0 demo_state) * nv / c_light)
                        * complex_of_real d))
      (w demo_state)"
  have m: "materials demo_state ''glass'' = Some demo_glass"
    and e: "E_w_out demo_state = Some [0, 2]"
    and n: "[0, 2 :: complex] \<noteq> []"
    and l: "length [0, 2 :: complex] = length (w demo_state)"
    by (simp_all add: demo_state_def)
  have out: "demo_glass (- pi + 2) = None" and inb: "demo_glass 2 = Some (3 / 2)"
    using pi_ge_two by (simp_all add: demo_glass_def)
  have Hv: "?H d = [0, exp (- \<i> * complex_of_real (2 * (3 / 2) / c_light) * complex_of_real d)]"
    for d
    using out inb by (simp add: demo_state_def)
  from propagate_thickness_additive [OF m e n l, of ?H 1 2, OF refl]
  show ?thesis unfolding Hv by simp blast
qed


section \<open>Phase unwrapping\<close>

lemma length_add_from [simp]: "length (add_from k d ph) = length ph"
  by (simp add: add_from_def)

lemma nth_add_from:
  "j < length ph \<Longrightarrow> add_from k d ph ! j = (if k \<le> j then ph ! j + d else ph ! j)"
  by (auto simp: add_from_def nth_append min_def)

lemma fold_add_from:
  "length (fold (\<lambda>ind p. add_from (Suc ind) (c ind) p) inds ph) = length ph \<and>
   (j < length ph \<longrightarrow>
      fold (\<lambda>ind p. add_from (Suc ind) (c ind) p) inds ph ! j
      = ph ! j + sum_list (map c (filter (\<lambda>i. i < j) inds)))"
proof (induction inds arbitrary: ph)
  case Nil
  show ?case by simp
next
  case (Cons a inds)
  from Cons [of "add_from (Suc a) (c a) ph"] show ?case
    by (auto simp: nth_add_from)
qed

lemma filter_less_upt: "j \<le> m \<Longrightarrow> filter (\<lambda>i. i < j) [0..<m] = [0..<j]"
proof -
  assume "j \<le> m"
  then have "[0..<m] = [0..<j] @ [j..<m]"
    using upt_add_eq_append [of 0 j "m - j"] by simp
  then show ?thesis by simp
qed

lemma nth_np_diff: "i < length ph - 1 \<Longrightarrow> np_diff ph ! i = ph ! Suc i - ph ! i"
  by (simp add: np_diff_def)

lemma jump_sum:
  "sum_list (map (\<lambda>i. if D i < 0 then 2 * pi else - (2 * pi))
       (filter (\<lambda>i. \<bar>D i\<bar> > 5) [0..<j]))
   = 2 * pi * real (length (filter (\<lambda>i. D i < - 5) [0..<j]))
     - 2 * pi * real (length (filter (\<lambda>i. D i > 5) [0..<j]))" for D :: "nat \<Rightarrow> real"
  by (induction j) (auto simp: algebra_simps)

text \<open>
  Claim C8. The unwrapping step of \<^verbatim>\<open>get_temporal_phase\<close> and \<^verbatim>\<open>get_spectral_phase\<close>
  keeps the length of the phase array, and its sample \<open>j\<close> is the raw sample \<open>j\<close> plus
  \<open>2\<pi>\<close> for every index \<open>i < j\<close> whose difference \<open>ph[i+1] - ph[i]\<close> is below \<open>-5\<close> and
  minus \<open>2\<pi>\<close> for every index \<open>i < j\<close> whose difference is above 5, the differences
  being those of the phase array before any correction.
\<close>

theorem unravel_jumps:
  assumes "j < length ph"
  shows "length (unravel ph) = length ph \<and> unravel ph ! j = ph ! j + jump_correction ph j"
proof -
  let ?d = "np_diff ph"
  let ?c = "\<lambda>i. if ?d ! i < 0 then 2 * pi else - (2 * pi)"
  let ?P = "\<lambda>i. \<bar>?d ! i\<bar> > 5"
  let ?D = "\<lambda>i. ph ! Suc i - ph ! i"
  have m: "length ?d = length ph - 1" by (simp add: np_diff_def)
  have step: "(\<lambda>ind p. if ?d ! ind < 0 then add_from (ind + 1) (2 * pi) p
                         else add_from (ind + 1) (- (2 * pi)) p)
      = (\<lambda>ind p. add_from (Suc ind) (?c ind) p)"
    by (intro ext) simp
  have un: "unravel ph = fold (\<lambda>ind p. add_from (Suc ind) (?c ind) p) (filter ?P [0..<length ?d]) ph"
    unfolding unravel_def Let_def step ..
  have jm: "j \<le> length ph - 1" using assms by simp
  have "filter (\<lambda>i. i < j) (filter ?P [0..<length ?d]) = filter ?P (filter (\<lambda>i. i < j) [0..<length ph - 1])"
    unfolding m by (simp add: conj_commute)
  also have "filter (\<lambda>i. i < j) [0..<length ph - 1] = [0..<j]"
    using jm by (rule filter_less_upt)
  finally have sel: "filter (\<lambda>i. i < j) (filter ?P [0..<length ?d]) = filter ?P [0..<j]" .
  have dD: "i < j \<Longrightarrow> ?d ! i = ?D i" for i
    using jm by (simp add: nth_np_diff)
  have "sum_list (map ?c (filter ?P [0..<j]))
      = sum_list (map (\<lambda>i. if ?D i < 0 then 2 * pi else - (2 * pi)) (filter (\<lambda>i. \<bar>?D i\<bar> > 5) [0..<j]))"
  proof -
    have f: "filter ?P [0..<j] = filter (\<lambda>i. \<bar>?D i\<bar> > 5) [0..<j]"
      by (rule filter_cong) (simp_all add: dD)
    show ?thesis unfolding f
      by (rule arg_cong [where f = sum_list], rule map_cong) (simp_all add: dD)
  qed
  also have "\<dots> = jump_correction ph j"
    unfolding jump_correction_def by (rule jump_sum)
  finally have total: "sum_list (map ?c (filter ?P [0..<j])) = jump_correction ph j" .
  from fold_add_from [of ?c "filter ?P [0..<length ?d]" ph j] assms
  show ?thesis unfolding un sel total by simp
qed


theorem unravel_jumps_witness:
  "(2::nat) < length [3, - 3, 3, 3 :: real]
   \<and> length (unravel [3, - 3, 3, 3]) = 4
   \<and> unravel [3, - 3, 3, 3] ! 1 = - 3 + 2 * pi
   \<and> unravel [3, - 3, 3, 3] ! 2 = 3"
  using unravel_jumps [of 1 "[3, - 3, 3, 3]"] unravel_jumps [of 2 "[3, - 3, 3, 3]"]
  by (simp add: jump_correction_def numeral_2_eq_2)


section \<open>The generated pulse\<close>

lemma those_map_Some: "those (map (\<lambda>x. Some (f x)) xs) = Some (map f xs)"
  by (induction xs) simp_all

lemma generate_pulse_grid:
  assumes "generate_pulse s fwhm l0 tspan n_arg dd = Inr s1"
  shows "\<exists>n. n = (case n_arg of None \<Rightarrow> N s | Some k \<Rightarrow> k) \<and> 0 < n \<and> N s1 = n
    \<and> t s1 = linspace (- tspan / 2) (tspan / 2) (nat n) \<and> dt s1 = tspan / real_of_int n
    \<and> t_span s1 = tspan"
  using assms
  by (auto simp: generate_pulse_def Let_def bindE_Inr_iff split: if_splits option.splits)

lemma generate_pulse_field:
  assumes "generate_pulse s fwhm l0 tspan n_arg dd = Inr s1"
  shows "\<exists>tau e. pulse_tau fwhm l0 dd = Inr tau
     \<and> those (map (gauss_sample tau) (t s1)) = Some e \<and> E_t s1 = map complex_of_real e"
  using assms
  by (auto simp: generate_pulse_def Let_def bindE_Inr_iff split: if_splits option.splits)

lemma nth_linspace:
  "2 \<le> n \<Longrightarrow> i < n \<Longrightarrow> linspace a b n ! i = a + real i * ((b - a) / real (n - 1))"
  by (simp add: linspace_def)

text \<open>The time grid that line 83 builds, for a sample count \<open>n\<close> of at least 2: \<open>n\<close>
  samples from \<open>-t_span/2\<close> to \<open>+t_span/2\<close> with both ends included, symmetric about zero,
  and \<open>t_span / (n - 1)\<close> apart, while line 82 stores \<open>t_span / n\<close> as \<^verbatim>\<open>dt\<close>.\<close>

lemma generate_pulse_time_grid:
  assumes "generate_pulse s fwhm l0 tspan (Some n) dd = Inr s1" and "2 \<le> n"
  shows "length (t s1) = nat n
    \<and> t s1 ! 0 = - tspan / 2
    \<and> t s1 ! (nat n - 1) = tspan / 2
    \<and> (\<forall>i. Suc i < nat n \<longrightarrow> t s1 ! Suc i - t s1 ! i = tspan / real_of_int (n - 1))
    \<and> (\<forall>i. i < nat n \<longrightarrow> t s1 ! (nat n - 1 - i) = - (t s1 ! i))
    \<and> dt s1 = tspan / real_of_int n"
proof -
  from generate_pulse_grid [OF assms(1)]
  have grid: "t s1 = linspace (- tspan / 2) (tspan / 2) (nat n)"
    and step: "dt s1 = tspan / real_of_int n"
    by simp_all
  have n2: "2 \<le> nat n" using assms(2) by simp
  have rn: "real (nat n - 1) = real_of_int n - 1" using assms(2) by (simp add: of_nat_diff)
  have nz: "real_of_int n - 1 \<noteq> 0" using assms(2) by simp
  define h where "h = tspan / (real_of_int n - 1)"
  have full: "(real_of_int n - 1) * h = tspan" using nz by (simp add: h_def)
  have nth: "t s1 ! i = - tspan / 2 + real i * h" if "i < nat n" for i
    using that n2 by (simp add: grid nth_linspace rn h_def)
  have first: "t s1 ! 0 = - tspan / 2"
    using n2 by (simp add: nth)
  have last: "t s1 ! (nat n - 1) = tspan / 2"
    using n2 full by (simp add: nth rn)
  have even: "t s1 ! Suc i - t s1 ! i = tspan / real_of_int (n - 1)" if "Suc i < nat n" for i
  proof -
    have "t s1 ! Suc i - t s1 ! i = h" using that by (simp add: nth algebra_simps)
    then show ?thesis by (simp add: h_def)
  qed
  have sym: "t s1 ! (nat n - 1 - i) = - (t s1 ! i)" if "i < nat n" for i
  proof -
    have r: "real (nat n - 1 - i) = real_of_int n - 1 - real i"
      using that assms(2) by (simp add: of_nat_diff)
    have "t s1 ! (nat n - 1 - i) = - tspan / 2 + (real_of_int n - 1) * h - real i * h"
      using that n2 by (simp add: nth r algebra_simps)
    also have "\<dots> = tspan / 2 - real i * h" unfolding full by simp
    finally show ?thesis using that by (simp add: nth)
  qed
  show ?thesis using first last even sym step by (simp add: grid)
qed

lemma generate_pulse_time_grid_three:
  "\<exists>s1. generate_pulse demo_state 1 1 2 (Some 3) ''temporal'' = Inr s1
      \<and> (2::int) \<le> 3
      \<and> length (t s1) = 3 \<and> t s1 ! 0 = - 1 \<and> t s1 ! 2 = 1
      \<and> t s1 ! 1 - t s1 ! 0 = 1 \<and> t s1 ! 2 - t s1 ! 1 = 1
      \<and> t s1 ! 1 = 0 \<and> dt s1 = 2 / 3"
proof -
  obtain s1 where s1: "generate_pulse demo_state 1 1 2 (Some 3) ''temporal'' = Inr s1"
    using generate_pulse_temporal_succeeds [of 1 3 2 1 demo_state] by auto
  have n: "(2::int) \<le> 3" by simp
  from generate_pulse_time_grid [OF s1 n]
  have g: "length (t s1) = 3" "t s1 ! 0 = - 1" "t s1 ! 2 = 1"
    "\<forall>i. Suc i < 3 \<longrightarrow> t s1 ! Suc i - t s1 ! i = 1"
    "\<forall>i. i < 3 \<longrightarrow> t s1 ! (2 - i) = - (t s1 ! i)" "dt s1 = 2 / 3"
    by simp_all
  from g(4) have d: "t s1 ! Suc 0 - t s1 ! 0 = 1" "t s1 ! Suc (Suc 0) - t s1 ! Suc 0 = 1"
    by simp_all
  from g(5) [rule_format, of 1] have m: "t s1 ! 1 = 0" by simp
  show ?thesis using s1 g(1,2,3,6) d m by (simp add: numeral_2_eq_2)
qed

lemma generate_pulse_frequency_grid:
  assumes "generate_pulse s fwhm l0 tspan n_arg dd = Inr s1"
  shows "\<exists>f. fftfreq (nat (N s1)) (dt s1) = Inr f \<and> w s1 = fftshift (map (\<lambda>x. 2 * pi * x) f)"
  using assms
  by (auto simp: generate_pulse_def Let_def bindE_Inr_iff split: if_splits option.splits)

text \<open>
  Claim C9 says that the time grid has \<open>N\<close> evenly spaced samples over
  \<open>[-t_span/2, +t_span/2]\<close>, symmetric about zero, \<open>t_span / N\<close> apart. Two samples are
  generated over a span of 2: line 82 stores \<open>dt = t_span / N = 1\<close> and line 85 builds the
  frequency grid \<open>[-\<pi>, 0]\<close> from it, as for samples 1 apart, but the grid
  of line 83 is \<open>[-1, 1]\<close>, its samples 2 apart.
\<close>

theorem time_grid_spacing_mismatch:
  "\<exists>s1. generate_pulse demo_state 1 1 2 (Some 2) ''temporal'' = Inr s1
      \<and> t s1 = [- 1, 1] \<and> t_span s1 = 2 \<and> N s1 = 2
      \<and> dt s1 = 1 \<and> dt s1 = t_span s1 / real_of_int (N s1)
      \<and> w s1 = [- pi, 0]
      \<and> t s1 ! 1 - t s1 ! 0 = 2
      \<and> t s1 ! 1 - t s1 ! 0 \<noteq> t_span s1 / real_of_int (N s1)"
proof -
  obtain s1 where s1: "generate_pulse demo_state 1 1 2 (Some 2) ''temporal'' = Inr s1"
    using generate_pulse_temporal_succeeds [of 1 2 2 1 demo_state] by auto
  from generate_pulse_grid [OF s1]
  have g: "t s1 = linspace (- 1) 1 2" "t_span s1 = 2" "N s1 = 2" "dt s1 = 1" by simp_all
  have lin: "linspace (- 1) 1 2 = [- 1, 1]"
    by (simp add: linspace_def numeral_2_eq_2)
  have k: "(2 - 1) div 2 + 1 = Suc 0" "2 div 2 = Suc 0" by simp_all
  have fr: "fftfreq 2 1 = Inr [0, - (1 / 2)]"
    unfolding fftfreq_def k by simp
  have r: "nat ((- int (length [0, - pi] div 2)) mod int (length [0, - pi])) = Suc 0"
    by simp
  have sh: "fftshift [0, - pi] = [- pi, 0]"
    unfolding fftshift_def roll_def r by simp
  from generate_pulse_frequency_grid [OF s1] have fg: "w s1 = [- pi, 0]"
    by (simp add: g fr sh)
  show ?thesis using s1 g lin fg by simp
qed

text \<open>Whatever the other arguments, a selector other than \<^verbatim>\<open>'temporal'\<close> gives the
  result of \<^verbatim>\<open>'spectral'\<close>, the same exception or the same object; the time constant is
  \<open>0.441 l_0\<^sup>2 / (fwhm c)\<close>, a zero \<open>fwhm\<close> raising ZeroDivisionError.\<close>

lemma generate_pulse_selector_same:
  assumes "duration_domain \<noteq> ''temporal''"
  shows "generate_pulse s fwhm l0 tspan n_arg duration_domain
           = generate_pulse s fwhm l0 tspan n_arg ''spectral''
    \<and> pulse_tau fwhm l0 duration_domain
           = (if fwhm = 0 then Inl ZeroDivisionError
              else Inr (0.441 * l0\<^sup>2 / (fwhm * c_light)))
    \<and> (\<forall>s1. generate_pulse s fwhm l0 tspan n_arg duration_domain = Inr s1 \<longrightarrow>
          E_t s1 = map (\<lambda>x. complex_of_real
                          (exp (- (x\<^sup>2) / (0.441 * l0\<^sup>2 / (fwhm * c_light))\<^sup>2)))
                     (t s1))"
proof -
  have tau: "pulse_tau fwhm l0 duration_domain
      = (if fwhm = 0 then Inl ZeroDivisionError else Inr (0.441 * l0\<^sup>2 / (fwhm * c_light)))"
    using assms by (simp add: pulse_tau_def c_light_def)
  have same: "pulse_tau fwhm l0 duration_domain = pulse_tau fwhm l0 ''spectral''"
    using assms by (simp add: pulse_tau_def)
  have gen: "generate_pulse s fwhm l0 tspan n_arg duration_domain
      = generate_pulse s fwhm l0 tspan n_arg ''spectral''"
    unfolding generate_pulse_def same ..
  have field: "E_t s1 = map (\<lambda>x. complex_of_real
        (exp (- (x\<^sup>2) / (0.441 * l0\<^sup>2 / (fwhm * c_light))\<^sup>2))) (t s1)"
    if ok: "generate_pulse s fwhm l0 tspan n_arg duration_domain = Inr s1" for s1
  proof -
    let ?tau = "0.441 * l0\<^sup>2 / (fwhm * c_light)"
    from generate_pulse_field [OF ok] obtain tau' e where
      t': "pulse_tau fwhm l0 duration_domain = Inr tau'"
      and e: "those (map (gauss_sample tau') (t s1)) = Some e"
      and f: "E_t s1 = map complex_of_real e"
      by blast
    from ok have l0: "l0 \<noteq> 0" by (auto simp: generate_pulse_def split: if_splits)
    from t' have fw: "fwhm \<noteq> 0" and tv: "tau' = ?tau"
      unfolding tau by (simp_all split: if_splits)
    have tz: "?tau \<noteq> 0" using l0 fw by (simp add: c_light_def)
    have g: "gauss_sample ?tau = (\<lambda>x. Some (exp (- (x\<^sup>2) / ?tau\<^sup>2)))"
      using tz by (intro ext) (simp add: gauss_sample_def)
    from e have "e = map (\<lambda>x. exp (- (x\<^sup>2) / ?tau\<^sup>2)) (t s1)"
      unfolding tv g those_map_Some by simp
    then show ?thesis unfolding f by simp
  qed
  from tau gen field show ?thesis by blast
qed

lemma generate_pulse_spectral_succeeds:
  assumes "duration_domain \<noteq> ''temporal''"
    and "l0 \<noteq> 0" and "tspan \<noteq> 0" and "fwhm \<noteq> 0"
    and "n = (case n_arg of None \<Rightarrow> N s | Some k \<Rightarrow> k)" and "0 < n"
  shows "\<exists>s1. generate_pulse s fwhm l0 tspan n_arg duration_domain = Inr s1"
proof -
  define tv where "tv = 0.441 * l0\<^sup>2 / (fwhm * c_light)"
  have tau: "pulse_tau fwhm l0 duration_domain = Inr tv"
    using assms(1,4) by (simp add: pulse_tau_def c_light_def tv_def)
  have tz: "tv \<noteq> 0" using assms(2,4) by (simp add: c_light_def tv_def)
  have th: "\<exists>e. those (map (gauss_sample tv) xs) = Some e \<and> length e = length xs" for xs
    using tz by (induction xs) (auto simp: gauss_sample_def)
  from th [of "linspace (- tspan / 2) (tspan / 2) (nat n)"] obtain e where
    e: "those (map (gauss_sample tv) (linspace (- tspan / 2) (tspan / 2) (nat n))) = Some e"
    "length e = nat n" by auto
  from e(2) assms(6) have ne: "e \<noteq> []" by auto
  have fr: "\<exists>f. fftfreq (nat n) (tspan / real_of_int n) = Inr f"
    using assms(3,6) by (simp add: fftfreq_def)
  have n0: "n \<noteq> 0" "\<not> n < 0" using assms(6) by simp_all
  show ?thesis
    unfolding generate_pulse_def assms(5) [symmetric] Let_def tau
    using assms(2) n0 ne fr e(1) by (auto simp: fft_def)
qed

text \<open>
  Claim C10. Given arguments on which the arithmetic of \<^verbatim>\<open>generate_pulse\<close> does not
  divide by zero (\<open>l_0\<close>, \<open>t_span\<close> and \<open>fwhm\<close> not zero, a positive sample count), the method
  returns for every \<^verbatim>\<open>duration_domain\<close> other than the string \<^verbatim>\<open>'temporal'\<close>: no
  selector is rejected. The object it returns is the one it returns for \<^verbatim>\<open>'spectral'\<close>,
  the time constant is \<open>0.441 l_0\<^sup>2 / (fwhm c)\<close>, and the generated field is the Gaussian
  with that time constant on the time grid, copied into the output field.
\<close>

theorem generate_pulse_selector_default:
  assumes "duration_domain \<noteq> ''temporal''"
    and "l0 \<noteq> 0" and "tspan \<noteq> 0" and "fwhm \<noteq> 0"
    and "n = (case n_arg of None \<Rightarrow> N s | Some k \<Rightarrow> k)" and "0 < n"
  shows "\<exists>s1. generate_pulse s fwhm l0 tspan n_arg duration_domain = Inr s1
      \<and> generate_pulse s fwhm l0 tspan n_arg ''spectral'' = Inr s1
      \<and> pulse_tau fwhm l0 duration_domain = Inr (0.441 * l0\<^sup>2 / (fwhm * c_light))
      \<and> t s1 = linspace (- tspan / 2) (tspan / 2) (nat n)
      \<and> E_t s1 = map (\<lambda>x. complex_of_real
                          (exp (- (x\<^sup>2) / (0.441 * l0\<^sup>2 / (fwhm * c_light))\<^sup>2)))
                     (linspace (- tspan / 2) (tspan / 2) (nat n))
      \<and> E_t_out s1 = Some (E_t s1)"
proof -
  from generate_pulse_spectral_succeeds [OF assms] obtain s1
    where s1: "generate_pulse s fwhm l0 tspan n_arg duration_domain = Inr s1" by blast
  note same = generate_pulse_selector_same [OF assms(1), of s fwhm l0 tspan n_arg]
  from same s1 have sp: "generate_pulse s fwhm l0 tspan n_arg ''spectral'' = Inr s1" by simp
  from same assms(4)
  have tau: "pulse_tau fwhm l0 duration_domain = Inr (0.441 * l0\<^sup>2 / (fwhm * c_light))"
    by simp
  from generate_pulse_grid [OF s1] assms(5)
  have grid: "t s1 = linspace (- tspan / 2) (tspan / 2) (nat n)" by simp
  from same s1
  have field: "E_t s1 = map (\<lambda>x. complex_of_real
        (exp (- (x\<^sup>2) / (0.441 * l0\<^sup>2 / (fwhm * c_light))\<^sup>2))) (t s1)"
    by blast
  from generate_pulse_fields(1) [OF s1] have out: "E_t_out s1 = Some (E_t s1)" .
  show ?thesis
    using s1 sp tau grid field out by (intro exI [of _ s1]) (simp only: simp_thms)
qed

theorem generate_pulse_selector_default_witness:
  "\<exists>s1. ''Spectral'' \<noteq> ''temporal''
     \<and> generate_pulse demo_state 1 1 2 (Some 2) ''Spectral'' = Inr s1
     \<and> generate_pulse demo_state 1 1 2 (Some 2) ''spectral'' = Inr s1
     \<and> pulse_tau 1 1 ''Spectral'' = Inr (0.441 / c_light)
     \<and> t s1 = [- 1, 1]
     \<and> E_t s1 = [complex_of_real (exp (- 1 / (0.441 / c_light)\<^sup>2)),
                   complex_of_real (exp (- 1 / (0.441 / c_light)\<^sup>2))]
     \<and> E_t_out s1 = Some (E_t s1)"
proof -
  have sel: "''Spectral'' \<noteq> ''temporal''" by simp
  have grid: "linspace (- 2 / 2) (2 / 2) (nat 2) = [- 1, 1]"
    by (simp add: linspace_def numeral_2_eq_2)
  from generate_pulse_selector_default
    [of "''Spectral''" 1 2 1 2 demo_state "Some 2", OF sel]
  show ?thesis unfolding grid using sel by simp
qed


section \<open>The analysers before any pulse is generated\<close>


text \<open>With Python's \<^verbatim>\<open>None\<close> in place of the arrays it is the other way round: the two
  spectral-phase methods return \<^verbatim>\<open>None\<close> and the other three raise.\<close>

lemma analysers_absent_field:
  "get_spectral_phase polyfit (s\<lparr>E_t_out := None, E_w_out := None\<rparr>) linear_comp = Inr None"
  "get_spectral_phase_expansion polyfit (s\<lparr>E_t_out := None, E_w_out := None\<rparr>) orders prefix
     = Inr None"
  "get_temporal_intensity (s\<lparr>E_t_out := None, E_w_out := None\<rparr>) nrm = Inl AttributeError"
  "get_spectral_intensity (s\<lparr>E_t_out := None, E_w_out := None\<rparr>) nrm = Inl AttributeError"
  "get_temporal_phase polyfit (s\<lparr>E_t_out := None, E_w_out := None\<rparr>) linear_comp
     = Inl AttributeError"
  by (simp_all add: get_spectral_phase_def get_spectral_phase_expansion_def
      get_temporal_intensity_def get_spectral_intensity_def get_temporal_phase_def)





text \<open>Once a pulse is generated neither guard fires: the output arrays are never empty and
  never \<^verbatim>\<open>None\<close>, whatever is propagated afterwards.\<close>

lemma fields_present_after_generation:
  assumes "generate_pulse s fwhm l0 tspan n_arg dd = Inr s1"
    and "propagate_all s1 calls = Inr s2"
  shows "\<exists>et ew. E_t_out s2 = Some et \<and> et \<noteq> [] \<and> E_w_out s2 = Some ew \<and> ew \<noteq> []"
proof -
  have step: "\<exists>et ew. E_t_out b = Some et \<and> et \<noteq> [] \<and> E_w_out b = Some ew \<and> ew \<noteq> []"
    if "\<exists>et ew. E_t_out a = Some et \<and> et \<noteq> [] \<and> E_w_out a = Some ew \<and> ew \<noteq> []"
      and "propagate_material a name d = Inr b" for a b name d
    using that
    by (cases "materials a name")
       (auto simp: propagate_material_def Let_def bindE_Inr_iff ifft_def split: if_splits)
  have all: "\<exists>et ew. E_t_out b = Some et \<and> et \<noteq> [] \<and> E_w_out b = Some ew \<and> ew \<noteq> []"
    if "\<exists>et ew. E_t_out a = Some et \<and> et \<noteq> [] \<and> E_w_out a = Some ew \<and> ew \<noteq> []"
      and "propagate_all a cs = Inr b" for a b cs
    using that
  proof (induction cs arbitrary: a)
    case Nil
    then show ?case by simp
  next
    case (Cons c cs)
    obtain name d where c: "c = (name, d)" by (cases c)
    from Cons.prems(2) obtain a1 where a1: "propagate_material a name d = Inr a1"
      and rest: "propagate_all a1 cs = Inr b"
      by (auto simp: c bindE_Inr_iff)
    from Cons.IH [OF step [OF Cons.prems(1) a1] rest] show ?case .
  qed
  have "\<exists>et ew. E_t_out s1 = Some et \<and> et \<noteq> [] \<and> E_w_out s1 = Some ew \<and> ew \<noteq> []"
    using assms(1)
    by (auto simp: generate_pulse_def Let_def bindE_Inr_iff fft_def
        split: if_splits option.splits)
  from all [OF this assms(2)] show ?thesis .
qed


section \<open>Pulse duration\<close>

lemma crossing_indices:
  "np_where (np_diff_nan (map (map_option (\<lambda>v. sgn (v - 0.5))) (map Some I)))
   = filter (\<lambda>i. sgn (I ! Suc i - 1 / 2) \<noteq> sgn (I ! i - 1 / 2)) [0..<length I - 1]"
  unfolding np_where_def
  by (rule filter_cong) (simp_all add: np_diff_nan_def sub_nan_def)

lemma set_crossing_indices:
  "set (filter (\<lambda>i. sgn (I ! Suc i - 1 / 2) \<noteq> sgn (I ! i - 1 / 2)) [0..<length I - 1])
   = crossings I"
  by (auto simp: crossings_def)

lemma sorted_filter_upt_ends:
  fixes P :: "nat \<Rightarrow> bool"
  assumes "xs = filter P [0..<m]" and "xs \<noteq> []"
  shows "hd xs = Min (set xs)" and "last xs = Max (set xs)" and "length xs = card (set xs)"
proof -
  have srt: "sorted xs" and dst: "distinct xs"
    unfolding assms(1) by (simp_all add: sorted_wrt_filter)
  obtain y ys where xs: "xs = y # ys" using assms(2) by (cases xs) auto
  have "\<forall>z\<in>set xs. y \<le> z" using srt xs by auto
  then show "hd xs = Min (set xs)"
    using xs by (intro Min_eqI [symmetric]) auto
  have "\<forall>z\<in>set xs. z \<le> last xs"
  proof
    fix z assume "z \<in> set xs"
    then obtain i where i: "i < length xs" "xs ! i = z" by (auto simp: in_set_conv_nth)
    then have "xs ! i \<le> xs ! (length xs - 1)"
      using srt by (intro sorted_nth_mono) auto
    then show "z \<le> last xs" using i assms(2) by (simp add: last_conv_nth)
  qed
  then show "last xs = Max (set xs)"
    using assms(2) by (intro Max_eqI [symmetric]) auto
  show "length xs = card (set xs)" using dst by (simp add: distinct_card)
qed

text \<open>Whenever the normalised intensity trace \<open>I\<close> holds no NaN and the axis is long
  enough, \<^verbatim>\<open>get_pulse_duration\<close> returns the distance, on the axis, between the last and
  the first index at which \<open>I - 1/2\<close> changes sign, and NaN when there are fewer than two
  such indices.\<close>

lemma pulse_duration_crossings:
  assumes trace: "(if domain = ''temporal'' then get_temporal_intensity s True
                   else get_spectral_intensity s True) = Inr (Some (map Some I))"
    and axis: "x = (if domain = ''temporal'' then get_t s else get_w s)"
    and long: "length I \<le> Suc (length x)"
  shows "get_pulse_duration s domain
       = Inr (if 2 \<le> card (crossings I)
              then Some (x ! Max (crossings I) - x ! Min (crossings I)) else None)"
proof -
  let ?xs = "filter (\<lambda>i. sgn (I ! Suc i - 1 / 2) \<noteq> sgn (I ! i - 1 / 2)) [0..<length I - 1]"
  have set: "set ?xs = crossings I" by (rule set_crossing_indices)
  have run: "get_pulse_duration s domain
      = (if length ?xs > 1
         then (if last ?xs < length x then Inr (Some (x ! last ?xs - x ! hd ?xs))
               else Inl IndexError)
         else Inr None)"
    unfolding get_pulse_duration_def trace bindE_simps Let_def axis [symmetric]
      option.case crossing_indices ..
  show ?thesis
  proof (cases "?xs = []")
    case True
    have "set ?xs = {}" unfolding True by simp
    then have "crossings I = {}" unfolding set .
    with True run show ?thesis by simp
  next
    case False
    note ends = sorted_filter_upt_ends [OF refl False]
    have "last ?xs \<in> set ?xs" using False by (rule last_in_set)
    then have "last ?xs < length I - 1" by simp
    with long have inb: "last ?xs < length x" by simp
    show ?thesis
      unfolding run using inb ends set by (auto simp: Suc_le_eq numeral_2_eq_2)
  qed
qed


lemma set_roll [simp]: "set (roll xs k) = set xs"
  by (simp add: roll_def)

lemma argmax_nonempty: "xs \<noteq> [] \<Longrightarrow> \<exists>i. argmax xs = Inr i"
  by (simp add: argmax_def)

lemma centred_intensity_defined:
  assumes "z \<in> set e" and "z \<noteq> 0"
  shows "\<exists>I. centred_intensity e True = Inr (map Some I) \<and> length I = length e"
proof -
  from assms(1) have ne: "map cmod e \<noteq> []" by auto
  from argmax_nonempty [OF ne] obtain ind where ind: "argmax (map cmod e) = Inr ind" by blast
  let ?I = "map (\<lambda>z. (cmod z)\<^sup>2) (roll e (int (length e) div 2 - int ind))"
  have "(cmod z)\<^sup>2 \<in> set ?I" using assms(1) by auto
  then have "(cmod z)\<^sup>2 \<le> Max (set ?I)" by (intro Max_ge) auto
  moreover have "0 < (cmod z)\<^sup>2" using assms(2) by simp
  ultimately have pos: "Max (set ?I) \<noteq> 0" by linarith
  have "centred_intensity e True = Inr (map Some (map (\<lambda>x. x / Max (set ?I)) ?I))"
    unfolding centred_intensity_def ind bindE_simps Let_def using pos by (simp add: comp_def)
  then show ?thesis by (intro exI [of _ "map (\<lambda>x. x / Max (set ?I)) ?I"]) simp
qed

text \<open>So for an output field that is not zero throughout, on a time grid of as many
  samples, the method does what claim C7 describes.\<close>

lemma pulse_duration_temporal_defined:
  assumes "E_t_out s = Some e" and "z \<in> set e" and "z \<noteq> 0" and "length (t s) = length e"
  shows "\<exists>I. get_temporal_intensity s True = Inr (Some (map Some I))
     \<and> get_pulse_duration s ''temporal''
         = Inr (if 2 \<le> card (crossings I)
                then Some (t s ! Max (crossings I) - t s ! Min (crossings I)) else None)"
proof -
  from centred_intensity_defined [OF assms(2,3)] obtain I
    where I: "centred_intensity e True = Inr (map Some I)" "length I = length e" by blast
  from assms(2) have "length e \<noteq> 0" by auto
  then have tr: "get_temporal_intensity s True = Inr (Some (map Some I))"
    by (simp add: get_temporal_intensity_def assms(1) I(1))
  have "get_pulse_duration s ''temporal''
      = Inr (if 2 \<le> card (crossings I)
             then Some (get_t s ! Max (crossings I) - get_t s ! Min (crossings I)) else None)"
    by (rule pulse_duration_crossings) (simp_all add: tr get_t_def assms(4) I(2))
  with tr show ?thesis by (auto simp: get_t_def)
qed

lemma roll_replicate [simp]: "roll (replicate n x) k = replicate n x"
  by (rule replicate_eqI) auto

lemma centred_intensity_dark:
  assumes "0 < n"
  shows "centred_intensity (replicate n 0) True = Inr (replicate n None)"
proof -
  have ne: "map cmod (replicate n 0) \<noteq> []" using assms by simp
  from argmax_nonempty [OF ne] obtain ind
    where ind: "argmax (map cmod (replicate n 0)) = Inr ind" by blast
  have mx: "Max (set (replicate n (0::real))) = 0" using assms by simp
  show ?thesis
    unfolding centred_intensity_def ind bindE_simps Let_def
    by (simp add: mx)
qed

lemma np_where_all_nan: "np_where (replicate m None) = [0..<m]"
  by (simp add: np_where_def cong: filter_cong)

lemma np_diff_nan_all_nan: "np_diff_nan (replicate n None) = replicate (n - 1) None"
  by (rule replicate_eqI [symmetric, THEN sym]) (auto simp: np_diff_nan_def sub_nan_def)

text \<open>An output field that is zero throughout: every normalised intensity is \<open>0 / 0\<close>,
  every index counts as a crossing, and the method returns the distance between the
  first and the last but one sample of the axis.\<close>

lemma pulse_duration_dark:
  assumes "E_t_out s = Some (replicate n 0)" and "3 \<le> n" and "length (t s) = n"
  shows "get_temporal_intensity s True = Inr (Some (replicate n None))"
    and "get_pulse_duration s ''temporal'' = Inr (Some (t s ! (n - 2) - t s ! 0))"
proof -
  have n0: "0 < n" using assms(2) by simp
  show trace: "get_temporal_intensity s True = Inr (Some (replicate n None))"
    using n0 by (simp add: get_temporal_intensity_def assms(1) centred_intensity_dark)
  have idx: "np_where (np_diff_nan (map (map_option (\<lambda>v. sgn (v - 0.5))) (replicate n None)))
      = [0..<n - 1]"
    by (simp add: np_diff_nan_all_nan np_where_all_nan)
  have l: "last [0..<n - 1] = n - 2" and h: "hd [0..<n - 1] = 0" and len: "1 < length [0..<n - 1]"
    using assms(2) by (simp_all add: last_upt hd_upt)
  have inb: "n - 2 < length (t s)" using assms(2,3) by simp
  show "get_pulse_duration s ''temporal'' = Inr (Some (t s ! (n - 2) - t s ! 0))"
    unfolding get_pulse_duration_def using trace idx l h len inb
    by (simp add: Let_def get_t_def del: upt_Suc)
qed


lemma fftshift_replicate [simp]: "fftshift (replicate n x) = replicate n x"
  by (simp add: fftshift_def)

lemma idft_replicate_zero: "idft (replicate n 0) = replicate n 0"
  by (rule replicate_eqI) (auto simp: idft_def)

text \<open>A propagation through a material whose band holds none of the samples leaves a
  field that is zero throughout.\<close>

lemma propagate_material_blackout:
  assumes "materials s name = Some ip"
    and "E_w_out s = Some ew" and "length ew = length (w s)" and "ew \<noteq> []"
    and "\<And>x. x \<in> set (w s) \<Longrightarrow> ip (x + w_0 s) = None"
  shows "propagate_material s name d
       = Inr (s\<lparr>E_w_out := Some (replicate (length ew) 0),
                E_t_out := Some (replicate (length ew) 0)\<rparr>)"
proof -
  have h: "nan_to_zero (transfer_raw s ip d) = replicate (length ew) 0"
    using assms(5)
    by (intro replicate_eqI) (auto simp: assms(3) nan_to_zero_def transfer_raw_def)
  have m: "np_mul (replicate (length ew) 0) ew = Inr (replicate (length ew) 0)"
    unfolding np_mul_def
    by (simp, intro replicate_eqI [symmetric, THEN sym]) (auto simp: set_zip)
  show ?thesis
    using assms(4)
    by (simp add: propagate_material_unfold [OF assms(1,2)] h m idft_replicate_zero)
qed

lemma generate_pulse_three:
  assumes "generate_pulse demo_state 1 1 2 (Some 3) ''temporal'' = Inr s1"
  shows "w s1 = [- pi, 0, pi]" and "w_0 s1 = 2 * pi * c_light"
    and "materials s1 = materials demo_state"
    and "length (t s1) = 3" and "t s1 ! 0 = - 1" and "t s1 ! 1 = 0"
proof -
  have k: "(3 - 1) div 2 + 1 = Suc (Suc 0)" "3 div 2 = Suc 0" by simp_all
  have f: "fftfreq 3 (2 / 3) = Inr [0, 1 / 2, - (1 / 2)]"
    unfolding fftfreq_def k by simp
  have r: "nat ((- int (length [0, pi, - pi] div 2)) mod int (length [0, pi, - pi])) = Suc (Suc 0)"
    by simp
  have sh: "fftshift [0, pi, - pi] = [- pi, 0, pi]"
    unfolding fftshift_def roll_def r by simp
  from assms show "w s1 = [- pi, 0, pi]" "w_0 s1 = 2 * pi * c_light"
    "materials s1 = materials demo_state"
    by (auto simp: generate_pulse_def Let_def bindE_Inr_iff f sh split: if_splits option.splits)
  from generate_pulse_grid [OF assms]
  have g: "t s1 = linspace (- 1) 1 3" by simp
  show "length (t s1) = 3" "t s1 ! 0 = - 1" "t s1 ! 1 = 0"
    by (simp_all add: g nth_linspace)
qed

text \<open>
  Claim C7 says that \<^verbatim>\<open>get_pulse_duration\<close> returns NaN when the intensity trace
  crosses one half fewer than twice. Three samples are generated and propagated through
  a material whose band holds none of them: the output field is zero, no intensity is
  defined, none crosses one half, and the method returns the number 1, the distance
  between the first two samples of the time grid.
\<close>

theorem pulse_duration_dark_field:
  "\<exists>s1 s2. generate_pulse demo_state 1 1 2 (Some 3) ''temporal'' = Inr s1
     \<and> propagate_material s1 ''glass'' 1 = Inr s2
     \<and> E_t_out s2 = Some [0, 0, 0]
     \<and> get_temporal_intensity s2 True = Inr (Some [None, None, None])
     \<and> get_pulse_duration s2 ''temporal'' = Inr (Some 1)"
proof -
  obtain s1 where s1: "generate_pulse demo_state 1 1 2 (Some 3) ''temporal'' = Inr s1"
    using generate_pulse_temporal_succeeds [of 1 3 2 1 demo_state] by auto
  note g = generate_pulse_three [OF s1]
  from generate_pulse_fields [OF s1] g(1)
  have ew: "E_w_out s1 = Some (E_w s1)" "length (E_w s1) = length (w s1)" "E_w s1 \<noteq> []"
    by simp_all
  have len: "length (E_w s1) = 3" using ew(2) g(1) by simp
  have mat: "materials s1 ''glass'' = Some demo_glass"
    by (simp add: g(3) demo_state_def)
  have far: "3 < - pi + 2 * pi * c_light"
    using pi_ge_two by (simp add: c_light_def)
  have band: "demo_glass (x + w_0 s1) = None" if "x \<in> set (w s1)" for x
  proof -
    from that have "x = - pi \<or> x = 0 \<or> x = pi" by (auto simp: g(1))
    then have "3 < x + 2 * pi * c_light"
      using far pi_gt_zero by (elim disjE) linarith+
    then show ?thesis by (simp add: g(2) demo_glass_def)
  qed
  define s2 where "s2 = s1\<lparr>E_w_out := Some (replicate 3 0), E_t_out := Some (replicate 3 0)\<rparr>"
  have p: "propagate_material s1 ''glass'' 1 = Inr s2"
    using propagate_material_blackout [OF mat ew band, of 1] by (simp add: len s2_def)
  have out: "E_t_out s2 = Some (replicate 3 0)" and tt: "length (t s2) = 3" "t s2 = t s1"
    by (simp_all add: s2_def g(4))
  have three: "(3::nat) \<le> 3" by simp
  from pulse_duration_dark [OF out three tt(1)] g(5,6)
  have "get_temporal_intensity s2 True = Inr (Some (replicate 3 None))"
    "get_pulse_duration s2 ''temporal'' = Inr (Some 1)"
    by (simp_all add: tt(2))
  with s1 p out show ?thesis by (auto simp: numeral_3_eq_3)
qed


section \<open>The Fourier pair of output fields\<close>

subsection \<open>The discrete Fourier transform and its inverse\<close>

lemma unit_root_sum:
  assumes "p < n" and "q < n"
  shows "(\<Sum>k<n. cis (2 * pi * (real p - real q) * real k / real n))
       = (if p = q then of_nat n else 0)"
proof (cases "p = q")
  case True
  then show ?thesis by simp
next
  case False
  define a where "a = 2 * pi * (real p - real q) / real n"
  define z where "z = cis a"
  have n0: "0 < n" using assms by simp
  have pw: "cis (2 * pi * (real p - real q) * real k / real n) = z ^ k" for k
    by (simp add: z_def a_def DeMoivre mult_ac)
  have "real n * a = 2 * pi * (real p - real q)" using n0 by (simp add: a_def)
  also have "real p - real q = of_int (int p - int q)" by simp
  finally have "z ^ n = cis (2 * pi * of_int (int p - int q))"
    by (simp add: z_def DeMoivre)
  then have zn: "z ^ n = 1" by simp
  have z1: "z \<noteq> 1"
  proof
    assume "z = 1"
    then have "cos a = 1" by (simp add: z_def complex_eq_iff)
    then obtain m :: int where m: "a = of_int m * 2 * pi" by (auto simp: cos_one_2pi_int)
    then have "2 * pi * ((real p - real q) / real n) = 2 * pi * of_int m"
      by (simp add: a_def mult_ac)
    then have "(real p - real q) / real n = of_int m"
      using mult_left_cancel [of "2 * pi" "(real p - real q) / real n" "of_int m"] by simp
    then have "real p - real q = of_int m * real n"
      using n0 by (simp add: field_simps)
    then have "of_int (int p - int q) = (of_int (m * int n) :: real)" by simp
    then have eq: "int p - int q = m * int n" by (simp only: of_int_eq_iff)
    have "\<bar>int p - int q\<bar> < int n" using assms by auto
    with eq have "\<bar>m\<bar> * int n < int n" by (simp add: abs_mult)
    with n0 have "\<bar>m\<bar> < 1" by simp
    then have "m = 0" by simp
    with eq False show False by simp
  qed
  have "(\<Sum>k<n. cis (2 * pi * (real p - real q) * real k / real n)) = (\<Sum>k<n. z ^ k)"
    by (simp add: pw)
  also have "\<dots> = (z ^ n - 1) / (z - 1)" using z1 by (rule geometric_sum)
  also have "\<dots> = 0" by (simp add: zn)
  finally show ?thesis using False by simp
qed

lemma idft_dft: "idft (dft a) = a"
proof (rule nth_equalityI)
  show "length (idft (dft a)) = length a" by simp
next
  fix m assume "m < length (idft (dft a))"
  then have m: "m < length a" by simp
  let ?n = "length a"
  have "(\<Sum>k<?n. dft a ! k * cis (2 * pi * real m * real k / real ?n))
      = (\<Sum>k<?n. \<Sum>j<?n. a ! j * cis (2 * pi * (real m - real j) * real k / real ?n))"
  proof (rule sum.cong [OF refl])
    fix k assume "k \<in> {..<?n}"
    then have k: "k < ?n" by simp
    have "dft a ! k * cis (2 * pi * real m * real k / real ?n)
        = (\<Sum>j<?n. a ! j * cis (- (2 * pi * real j * real k / real ?n))
              * cis (2 * pi * real m * real k / real ?n))"
      using k by (simp add: dft_def sum_distrib_right)
    also have "\<dots> = (\<Sum>j<?n. a ! j * cis (2 * pi * (real m - real j) * real k / real ?n))"
      by (rule sum.cong [OF refl])
         (simp add: mult.assoc cis_mult diff_divide_distrib algebra_simps)
    finally show "dft a ! k * cis (2 * pi * real m * real k / real ?n)
        = (\<Sum>j<?n. a ! j * cis (2 * pi * (real m - real j) * real k / real ?n))" .
  qed
  also have "\<dots> = (\<Sum>j<?n. a ! j * (\<Sum>k<?n. cis (2 * pi * (real m - real j) * real k / real ?n)))"
    by (subst sum.swap) (simp add: sum_distrib_left)
  also have "\<dots> = (\<Sum>j<?n. if j = m then a ! m * of_nat ?n else 0)"
    by (rule sum.cong [OF refl]) (auto simp: unit_root_sum m)
  also have "\<dots> = a ! m * of_nat ?n" using m by simp
  finally have sm: "(\<Sum>k<?n. dft a ! k * cis (2 * pi * real m * real k / real ?n))
      = a ! m * of_nat ?n" .
  from m have "a \<noteq> []" by auto
  then have "(\<Sum>k<?n. dft a ! k * cis (2 * pi * real m * real k / real ?n)) / of_nat ?n
      = a ! m"
    unfolding sm by simp
  then show "idft (dft a) ! m = a ! m" using m by (simp add: idft_def)
qed

lemma dft_idft: "dft (idft a) = a"
proof (rule nth_equalityI)
  show "length (dft (idft a)) = length a" by simp
next
  fix k assume "k < length (dft (idft a))"
  then have k: "k < length a" by simp
  let ?n = "length a"
  have "(\<Sum>m<?n. idft a ! m * cis (- (2 * pi * real m * real k / real ?n)))
      = (\<Sum>m<?n. \<Sum>j<?n. a ! j * cis (2 * pi * (real j - real k) * real m / real ?n) / of_nat ?n)"
  proof (rule sum.cong [OF refl])
    fix m assume "m \<in> {..<?n}"
    then have m: "m < ?n" by simp
    have "idft a ! m * cis (- (2 * pi * real m * real k / real ?n))
        = (\<Sum>j<?n. a ! j * cis (2 * pi * real m * real j / real ?n)
              * cis (- (2 * pi * real m * real k / real ?n)) / of_nat ?n)"
      using m by (simp add: idft_def sum_distrib_right sum_divide_distrib)
    also have "\<dots> = (\<Sum>j<?n. a ! j * cis (2 * pi * (real j - real k) * real m / real ?n) / of_nat ?n)"
      by (rule sum.cong [OF refl])
         (simp add: mult.assoc cis_mult diff_divide_distrib algebra_simps)
    finally show "idft a ! m * cis (- (2 * pi * real m * real k / real ?n))
        = (\<Sum>j<?n. a ! j * cis (2 * pi * (real j - real k) * real m / real ?n) / of_nat ?n)" .
  qed
  also have "\<dots> = (\<Sum>j<?n. a ! j * (\<Sum>m<?n. cis (2 * pi * (real j - real k) * real m / real ?n)) / of_nat ?n)"
    by (subst sum.swap) (simp add: sum_distrib_left sum_divide_distrib)
  also have "\<dots> = (\<Sum>j<?n. if j = k then a ! k else 0)"
    using k by (intro sum.cong [OF refl]) (auto simp: unit_root_sum)
  also have "\<dots> = a ! k" using k by simp
  finally show "dft (idft a) ! k = a ! k" using k by (simp add: dft_def)
qed


subsection \<open>Reordering\<close>

lemma roll_roll: "roll (roll xs a) b = roll xs (a + b)"
proof (cases "xs = []")
  case True
  then show ?thesis by (simp add: roll_def)
next
  case False
  let ?n = "length xs"
  have n0: "0 < int ?n" using False by simp
  have "(nat ((- b) mod int ?n) + nat ((- a) mod int ?n)) mod ?n = nat ((- (a + b)) mod int ?n)"
  proof -
    have "int ((nat ((- b) mod int ?n) + nat ((- a) mod int ?n)) mod ?n)
        = ((- b) mod int ?n + (- a) mod int ?n) mod int ?n"
      using n0 by (simp add: zmod_int)
    also have "\<dots> = (- (a + b)) mod int ?n"
      by (simp add: mod_add_eq add.commute)
    finally show ?thesis by (metis nat_int)
  qed
  then have "rotate (nat ((- b) mod int ?n) + nat ((- a) mod int ?n)) xs
      = rotate (nat ((- (a + b)) mod int ?n)) xs"
    by (metis rotate_conv_mod)
  with False show ?thesis by (simp add: roll_def rotate_rotate)
qed

lemma roll_full: "k mod int (length xs) = 0 \<Longrightarrow> roll xs k = xs"
  by (cases "xs = []") (simp_all add: roll_def mod_minus_eq [symmetric, of k] )


lemma fftshift_twice_even: "even (length xs) \<Longrightarrow> fftshift (fftshift xs) = xs"
proof -
  assume ev: "even (length xs)"
  have "int (length xs div 2) + int (length xs div 2) = int (length xs)"
    using ev by (auto elim!: evenE)
  then show ?thesis by (simp add: fftshift_def roll_roll roll_full)
qed

lemma ifftshift_fftshift: "ifftshift (fftshift xs) = xs"
  by (simp add: ifftshift_def fftshift_def roll_roll roll_full)

lemma ifftshift_even: "even (length xs) \<Longrightarrow> ifftshift xs = fftshift xs"
  by (metis fftshift_twice_even ifftshift_fftshift length_fftshift)

subsection \<open>The invariant\<close>

lemma generate_pulse_spectrum:
  assumes "generate_pulse s fwhm l0 tspan n_arg dd = Inr s1"
  shows "E_w s1 = fftshift (dft (E_t s1))" and "length (E_t s1) = length (t s1)"
    and "E_t s1 \<noteq> []"
  using assms
  by (auto simp: generate_pulse_def Let_def bindE_Inr_iff fft_def
      dest!: those_length split: if_splits option.splits)

text \<open>On a grid of even length the generated output fields are a Fourier pair.\<close>

lemma fourier_pair_generated:
  assumes "generate_pulse s fwhm l0 tspan n_arg dd = Inr s1" and "even (length (t s1))"
  shows "fourier_pair s1"
proof -
  note sp = generate_pulse_spectrum [OF assms(1)]
  have "even (length (dft (E_t s1)))" using assms(2) sp(2) by simp
  then have "fftshift (E_w s1) = dft (E_t s1)"
    unfolding sp(1) by (rule fftshift_twice_even)
  then show ?thesis
    using sp(3) by (simp add: fourier_pair_def generate_pulse_fields [OF assms(1)] ifft_def idft_dft)
qed

text \<open>Every call of \<^verbatim>\<open>propagate_material\<close> that returns keeps the invariant: on a known
  material it recomputes \<^verbatim>\<open>E_t_out\<close> from the new \<^verbatim>\<open>E_w_out\<close>, on an unknown one it
  changes nothing.\<close>

lemma fourier_pair_propagated:
  assumes "propagate_material s name d = Inr s'"
    and "materials s name = None \<Longrightarrow> fourier_pair s"
  shows "fourier_pair s'"
proof (cases "materials s name")
  case None
  with assms show ?thesis by (simp add: propagate_material_def)
next
  case (Some ip)
  with assms(1) show ?thesis
    by (auto simp: propagate_material_def Let_def bindE_Inr_iff fourier_pair_def
        split: option.splits)
qed

lemma fourier_pair_propagate_all:
  "fourier_pair s \<Longrightarrow> propagate_all s calls = Inr s' \<Longrightarrow> fourier_pair s'"
proof (induction calls arbitrary: s)
  case Nil
  then show ?case by simp
next
  case (Cons call calls)
  obtain name d where call: "call = (name, d)" by (cases call)
  from Cons.prems(2) obtain s1 where s1: "propagate_material s name d = Inr s1"
    and rest: "propagate_all s1 calls = Inr s'"
    by (auto simp: call bindE_Inr_iff)
  from fourier_pair_propagated [OF s1] Cons.prems(1) have "fourier_pair s1" by simp
  from Cons.IH [OF this rest] show ?case .
qed

lemma fourier_pair_even_grid:
  assumes "generate_pulse s fwhm l0 tspan n_arg dd = Inr s1" and "even (length (t s1))"
  shows "\<exists>s2. propagate_all s1 calls = Inr s2 \<and> fourier_pair s2"
proof -
  from propagate_all_ready [OF generate_pulse_ready [OF assms(1)], of calls]
  obtain s2 where s2: "propagate_all s1 calls = Inr s2" by blast
  from fourier_pair_propagate_all [OF fourier_pair_generated [OF assms] s2] s2
  show ?thesis by blast
qed

subsection \<open>Three samples\<close>

lemma idft_constant: "0 < m \<Longrightarrow> m < n \<Longrightarrow> idft (replicate n c) ! m = 0"
proof -
  assume m: "0 < m" "m < n"
  have "(\<Sum>k<n. replicate n c ! k * cis (2 * pi * real m * real k / real n))
      = (\<Sum>k<n. c * cis (2 * pi * (real m - real 0) * real k / real n))"
    by (rule sum.cong [OF refl]) simp
  also have "\<dots> = c * (\<Sum>k<n. cis (2 * pi * (real m - real 0) * real k / real n))"
    by (simp only: sum_distrib_left)
  also have "\<dots> = 0"
    using m by (subst unit_root_sum) auto
  finally show ?thesis using m by (simp add: idft_def)
qed

lemma those_nth:
  "those (map f xs) = Some e \<Longrightarrow> i < length xs \<Longrightarrow> f (xs ! i) = Some (e ! i)"
proof (induction xs arbitrary: e i)
  case Nil
  then show ?case by simp
next
  case (Cons x xs)
  then show ?case by (cases i) (auto split: option.splits)
qed

lemma fftshift_twice_three: "fftshift (fftshift [a, b, c]) = [b, c, a]"
proof -
  have r: "nat ((- (int (length [a, b, c] div 2) + int (length [a, b, c] div 2)))
        mod int (length [a, b, c])) = Suc 0"
    by simp
  show ?thesis
    unfolding fftshift_def length_roll roll_roll unfolding roll_def r by simp
qed


lemma propagate_material_zero_thickness:
  assumes "materials s name = Some ip"
    and "E_w_out s = Some ew" and "length ew = length (w s)" and "ew \<noteq> []"
    and "\<And>x. x \<in> set (w s) \<Longrightarrow> ip (x + w_0 s) \<noteq> None"
  shows "propagate_material s name 0
       = Inr (s\<lparr>E_w_out := Some ew, E_t_out := Some (idft (fftshift ew))\<rparr>)"
proof -
  have h: "nan_to_zero (transfer_raw s ip 0) = replicate (length ew) 1"
    using assms(5)
    by (intro replicate_eqI)
       (force simp: assms(3) nan_to_zero_def transfer_raw_def split: option.splits)+
  have m: "np_mul (replicate (length ew) 1) ew = Inr ew"
    unfolding np_mul_def by (simp, intro nth_equalityI) simp_all
  show ?thesis
    using assms(4) by (simp add: propagate_material_unfold [OF assms(1,2)] h m)
qed

text \<open>
  Claim C5 says that the output fields are a Fourier pair after \<^verbatim>\<open>generate_pulse\<close>
  and after every \<^verbatim>\<open>propagate_material\<close>. Three samples are generated: the output
  fields are not a pair under the reorder of line 243, and a propagation through a
  thickness of zero, which leaves \<^verbatim>\<open>E_w_out\<close> as it is, changes \<^verbatim>\<open>E_t_out\<close>.
\<close>

theorem fourier_pair_three_samples:
  "\<exists>s1 s2. generate_pulse demo_state 1 1 2 (Some 3) ''temporal'' = Inr s1
     \<and> \<not> fourier_pair s1
     \<and> propagate_material s1 ''vacuum'' 0 = Inr s2
     \<and> E_w_out s2 = E_w_out s1
     \<and> E_t_out s2 \<noteq> E_t_out s1"
proof -
  obtain s1 where s1: "generate_pulse demo_state 1 1 2 (Some 3) ''temporal'' = Inr s1"
    using generate_pulse_temporal_succeeds [of 1 3 2 1 demo_state] by auto
  note g = generate_pulse_three [OF s1]
  note sp = generate_pulse_spectrum [OF s1]
  note fl = generate_pulse_fields [OF s1]
  let ?et = "E_t s1"
  have len: "length ?et = 3" using sp(2) g(4) by simp
  \<comment> \<open>the middle sample of the generated field is 1\<close>
  from generate_pulse_field [OF s1] obtain tau e where
    tau: "pulse_tau 1 1 ''temporal'' = Inr tau"
    and e: "those (map (gauss_sample tau) (t s1)) = Some e"
    and f: "?et = map complex_of_real e"
    by blast
  from tau have tz: "tau \<noteq> 0" by (auto simp: pulse_tau_def)
  from those_nth [OF e, of 1] have "gauss_sample tau (t s1 ! 1) = Some (e ! 1)"
    by (simp add: g(4))
  moreover from g(6) have "t s1 ! Suc 0 = 0" by simp
  ultimately have "e ! 1 = 1" using tz by (simp add: gauss_sample_def)
  then have mid: "?et ! 1 = 1" using len by (simp add: f)
  \<comment> \<open>its transform, reordered twice, is not its transform\<close>
  obtain x0 x1 x2 where X: "dft ?et = [x0, x1, x2]"
  proof -
    have "length (dft ?et) = 3" using len by simp
    then show ?thesis
      by (cases "dft ?et"; cases "tl (dft ?et)"; cases "tl (tl (dft ?et))") (auto intro: that)
  qed
  have twice: "fftshift (E_w s1) = [x1, x2, x0]"
    unfolding sp(1) X by (rule fftshift_twice_three)
  have ne: "idft [x1, x2, x0] \<noteq> ?et"
  proof
    assume eq: "idft [x1, x2, x0] = ?et"
    then have "dft (idft [x1, x2, x0]) = dft ?et" by simp
    then have rot: "[x1, x2, x0] = [x0, x1, x2]" unfolding dft_idft X .
    from arg_cong [OF rot, of hd] have a: "x1 = x0" by simp
    from arg_cong [OF rot, of last] have b: "x2 = x0" by simp
    have "[x0, x1, x2] = replicate 3 x0" unfolding a b by (simp add: numeral_3_eq_3)
    then have "dft ?et = replicate 3 x0" unfolding X .
    then have "idft (dft ?et) = idft (replicate 3 x0)" by (rule arg_cong)
    then have "?et = idft (replicate 3 x0)" unfolding idft_dft .
    then have "?et ! 1 = idft (replicate 3 x0) ! 1" by (rule arg_cong)
    also have "\<dots> = 0" by (rule idft_constant) simp_all
    finally show False using mid by simp
  qed
  have nopair: "\<not> fourier_pair s1"
    using ne sp(3) by (simp add: fourier_pair_def fl(1,2) ifft_def twice)
  \<comment> \<open>a slab of no thickness\<close>
  have mat: "materials s1 ''vacuum'' = Some demo_vacuum"
    by (simp add: g(3) demo_state_def)
  have ew: "E_w_out s1 = Some (E_w s1)" "length (E_w s1) = length (w s1)" "E_w s1 \<noteq> []"
    using fl by simp_all
  have band: "demo_vacuum (x + w_0 s1) \<noteq> None" for x by (simp add: demo_vacuum_def)
  from propagate_material_zero_thickness [OF mat ew band]
  have p: "propagate_material s1 ''vacuum'' 0
      = Inr (s1\<lparr>E_w_out := Some (E_w s1), E_t_out := Some (idft (fftshift (E_w s1)))\<rparr>)" .
  show ?thesis
    using s1 nopair p ne by (auto simp: fl(1,2) twice)
qed

end
